theory Spec2Isabelle
  imports Complex_Main "HOL-Library.Multiset"
begin

section \<open>Python values used by the services\<close>

text \<open>
  A string is the list of the bytes of its UTF-8 text. \<^verbatim>\<open>str.strip()\<close> removes the white space
  at both ends: the code points for which \<^verbatim>\<open>str.isspace()\<close> holds, which are ten ASCII
  characters, U+0085 and U+00A0 (two bytes each) and U+1680, U+2000 to U+200A, U+2028,
  U+2029, U+202F, U+205F and U+3000 (three bytes each). \<^verbatim>\<open>str.lower()\<close> lowers the letters A to
  Z; of the other code points it turns only U+212A into an ASCII letter (k) and U+0130 into
  an i followed by a combining dot, so for the texts looked for below (none has a k, none
  ends in i) the bytes outside ASCII can stay as they are. \<^verbatim>\<open>sub in s\<close> asks whether \<^verbatim>\<open>sub\<close>
  occurs in \<^verbatim>\<open>s\<close> as a contiguous piece.
\<close>

definition is_space :: "char \<Rightarrow> bool" where
  "is_space c \<longleftrightarrow> c \<in> set [CHR '' '', CHR 0x09, CHR 0x0A, CHR 0x0B, CHR 0x0C, CHR 0x0D,
                            CHR 0x1C, CHR 0x1D, CHR 0x1E, CHR 0x1F]"

definition is_space2 :: "char \<Rightarrow> char \<Rightarrow> bool" where
  "is_space2 a b \<longleftrightarrow> a = CHR 0xC2 \<and> (b = CHR 0x85 \<or> b = CHR 0xA0)"

definition is_space3 :: "char \<Rightarrow> char \<Rightarrow> char \<Rightarrow> bool" where
  "is_space3 a b c \<longleftrightarrow>
     (a = CHR 0xE1 \<and> b = CHR 0x9A \<and> c = CHR 0x80) \<or>
     (a = CHR 0xE2 \<and> b = CHR 0x80 \<and>
        c \<in> set [CHR 0x80, CHR 0x81, CHR 0x82, CHR 0x83, CHR 0x84, CHR 0x85, CHR 0x86, CHR 0x87,
                  CHR 0x88, CHR 0x89, CHR 0x8A, CHR 0xA8, CHR 0xA9, CHR 0xAF]) \<or>
     (a = CHR 0xE2 \<and> b = CHR 0x81 \<and> c = CHR 0x9F) \<or>
     (a = CHR 0xE3 \<and> b = CHR 0x80 \<and> c = CHR 0x80)"

text \<open>
  White space taken off the front of a byte list; the two tests for the longer code points
  are arguments, so that the same function serves the reversed list.
\<close>

fun strip_front ::
  "(char \<Rightarrow> char \<Rightarrow> bool) \<Rightarrow> (char \<Rightarrow> char \<Rightarrow> char \<Rightarrow> bool) \<Rightarrow> string \<Rightarrow> string" where
  "strip_front two three (a # b # c # s) =
     (if is_space a then strip_front two three (b # c # s)
      else if two a b then strip_front two three (c # s)
      else if three a b c then strip_front two three s
      else a # b # c # s)"
| "strip_front two three [a, b] =
     (if is_space a then strip_front two three [b]
      else if two a b then []
      else [a, b])"
| "strip_front two three [a] = (if is_space a then [] else [a])"
| "strip_front two three [] = []"

definition lstrip :: "string \<Rightarrow> string" where
  "lstrip s = strip_front is_space2 is_space3 s"

definition rstrip :: "string \<Rightarrow> string" where
  "rstrip s = rev (strip_front (\<lambda>b a. is_space2 a b) (\<lambda>c b a. is_space3 a b c) (rev s))"

definition strip :: "string \<Rightarrow> string" where
  "strip s = rstrip (lstrip s)"

definition lower_char :: "char \<Rightarrow> char" where
  "lower_char c =
     (case map_of (zip ''ABCDEFGHIJKLMNOPQRSTUVWXYZ'' ''abcdefghijklmnopqrstuvwxyz'') c of
        Some d \<Rightarrow> d
      | None \<Rightarrow> c)"

definition lower :: "string \<Rightarrow> string" where
  "lower s = map lower_char s"

fun starts_with :: "string \<Rightarrow> string \<Rightarrow> bool" where
  "starts_with [] s = True"
| "starts_with (c # sub) [] = False"
| "starts_with (c # sub) (d # s) = (c = d \<and> starts_with sub s)"

fun contains :: "string \<Rightarrow> string \<Rightarrow> bool" where
  "contains sub [] = (sub = [])"
| "contains sub (d # s) = (starts_with sub (d # s) \<or> contains sub s)"

text \<open>
  \<^verbatim>\<open>xs[i:]\<close>: a negative start counts from the end and stops at the front of the list; a start
  of zero keeps the whole list.
\<close>

definition slice_from :: "int \<Rightarrow> 'a list \<Rightarrow> 'a list" where
  "slice_from i xs = (if i < 0 then drop (nat (int (length xs) + i)) xs else drop (nat i) xs)"

text \<open>
  Exceptions carry the message that \<^verbatim>\<open>str(e)\<close> returns. \<open>UpstreamError\<close> stands for whatever the
  model client raises, \<open>PyMongoError\<close> and \<open>DuplicateKeyError\<close> for what the store driver raises;
  \<open>OverflowError\<close> is what the driver raises for an integer that does not fit into eight bytes.
\<close>

datatype exn = Exception string | ValueError string | UpstreamError string | PyMongoError string
  | DuplicateKeyError string | OverflowError string

fun str_exn :: "exn \<Rightarrow> string" where
  "str_exn (Exception m) = m"
| "str_exn (ValueError m) = m"
| "str_exn (UpstreamError m) = m"
| "str_exn (PyMongoError m) = m"
| "str_exn (DuplicateKeyError m) = m"
| "str_exn (OverflowError m) = m"

text \<open>
  The values of a metadata dict. \<open>PIso t\<close> is the ISO-8601 text of the instant \<open>t\<close>, as
  \<^verbatim>\<open>isoformat()\<close> renders it. A dict is an association list; \<^verbatim>\<open>{}\<close> is the empty list.
\<close>

datatype pyval = PStr string | PInt int | PFloat real | PIso real

type_synonym metadata = "(string \<times> pyval) list"

text \<open>
  \<^verbatim>\<open>int(x)\<close> of a float cuts the fraction off, towards zero; \<^verbatim>\<open>str(n)\<close> and the \<^verbatim>\<open>{...}\<close> of an
  f-string render an integer in decimal.
\<close>

definition py_int :: "real \<Rightarrow> int" where
  "py_int x = (if 0 \<le> x then \<lfloor>x\<rfloor> else \<lceil>x\<rceil>)"

definition digit :: "nat \<Rightarrow> char" where
  "digit d =
     (if d = 0 then CHR ''0'' else if d = 1 then CHR ''1'' else if d = 2 then CHR ''2''
      else if d = 3 then CHR ''3'' else if d = 4 then CHR ''4'' else if d = 5 then CHR ''5''
      else if d = 6 then CHR ''6'' else if d = 7 then CHR ''7'' else if d = 8 then CHR ''8''
      else CHR ''9'')"

function str_nat :: "nat \<Rightarrow> string" where
  "str_nat n = (if n < 10 then [digit n] else str_nat (n div 10) @ [digit (n mod 10)])"
  by pat_completeness auto
termination
  by (relation "measure id") auto

declare str_nat.simps [simp del]

definition str_int :: "int \<Rightarrow> string" where
  "str_int i = (if i < 0 then CHR ''-'' # str_nat (nat (- i)) else str_nat (nat i))"

section \<open>RateLimiter (services/ai_service.py)\<close>

text \<open>
  The limiter keeps a log of the times of the recorded calls. Times are the readings of
  \<^verbatim>\<open>time.time()\<close>, modelled as real numbers of seconds; the reading is an argument of each
  operation. \<^verbatim>\<open>can_make_call\<close> assigns \<^verbatim>\<open>self.calls\<close>, so it returns the limiter next to
  its answer.
\<close>

record rate_limiter =
  max_calls :: int
  time_window :: int
  calls :: "real list"

definition RateLimiter :: "int \<Rightarrow> int \<Rightarrow> rate_limiter" where
  "RateLimiter mc tw = \<lparr>max_calls = mc, time_window = tw, calls = []\<rparr>"

definition can_make_call :: "real \<Rightarrow> rate_limiter \<Rightarrow> bool \<times> rate_limiter" where
  "can_make_call now rl =
     (let kept = filter (\<lambda>call_time. now - call_time < of_int (time_window rl)) (calls rl)
      in (int (length kept) < max_calls rl, rl\<lparr>calls := kept\<rparr>))"

definition record_call :: "real \<Rightarrow> rate_limiter \<Rightarrow> rate_limiter" where
  "record_call now rl = rl\<lparr>calls := calls rl @ [now]\<rparr>"

text \<open>A sequence of \<^verbatim>\<open>record_call\<close> invocations, at the given clock readings.\<close>

fun record_calls :: "real list \<Rightarrow> rate_limiter \<Rightarrow> rate_limiter" where
  "record_calls [] rl = rl"
| "record_calls (t # ts) rl = record_calls ts (record_call t rl)"

text \<open>Checks and records interleaved, as a caller that checks before every call does.\<close>

datatype limiter_op = Check real | Record real

fun limiter_step :: "rate_limiter \<Rightarrow> limiter_op \<Rightarrow> rate_limiter" where
  "limiter_step rl (Check t) = snd (can_make_call t rl)"
| "limiter_step rl (Record t) = record_call t rl"

fun limiter_run :: "rate_limiter \<Rightarrow> limiter_op list \<Rightarrow> rate_limiter" where
  "limiter_run rl [] = rl"
| "limiter_run rl (ev # evs) = limiter_run (limiter_step rl ev) evs"

fun recorded :: "limiter_op list \<Rightarrow> real list" where
  "recorded [] = []"
| "recorded (Check t # evs) = recorded evs"
| "recorded (Record t # evs) = t # recorded evs"

fun check_times :: "limiter_op list \<Rightarrow> real list" where
  "check_times [] = []"
| "check_times (Check t # evs) = t # check_times evs"
| "check_times (Record t # evs) = check_times evs"

text \<open>The calls that count at a check: those less than the window before it.\<close>

definition in_window :: "rate_limiter \<Rightarrow> real \<Rightarrow> real list \<Rightarrow> real list" where
  "in_window rl now ts = filter (\<lambda>t. now - t < of_int (time_window rl)) ts"

section \<open>retry_on_failure (services/ai_service.py)\<close>

text \<open>
  The decorated function runs on a state \<open>'s\<close> and either raises (\<open>Inl\<close>) or returns
  (\<open>Inr\<close>); \<open>sleep\<close> is the effect of \<^verbatim>\<open>time.sleep\<close> on that state. The loop runs over
  \<^verbatim>\<open>range(max_retries)\<close>; \<open>k\<close> counts the iterations that are left. When the range is empty
  the wrapper returns \<^verbatim>\<open>None\<close>.
\<close>

fun retry_loop ::
  "int \<Rightarrow> real \<Rightarrow> ('s \<Rightarrow> (exn + 'r) \<times> 's) \<Rightarrow> (real \<Rightarrow> 's \<Rightarrow> 's) \<Rightarrow> nat \<Rightarrow> nat \<Rightarrow> 's
   \<Rightarrow> (exn + 'r option) \<times> 's" where
  "retry_loop max_retries delay func sleep 0 attempt s = (Inr None, s)"
| "retry_loop max_retries delay func sleep (Suc k) attempt s =
     (case func s of
        (Inr v, s') \<Rightarrow> (Inr (Some v), s')
      | (Inl e, s') \<Rightarrow>
          if int attempt = max_retries - 1 then (Inl e, s')
          else retry_loop max_retries delay func sleep k (Suc attempt)
                 (sleep (delay * 2 ^ attempt) s'))"

definition retry_on_failure ::
  "int \<Rightarrow> real \<Rightarrow> ('s \<Rightarrow> (exn + 'r) \<times> 's) \<Rightarrow> (real \<Rightarrow> 's \<Rightarrow> 's) \<Rightarrow> 's
   \<Rightarrow> (exn + 'r option) \<times> 's" where
  "retry_on_failure max_retries delay func sleep s =
     retry_loop max_retries delay func sleep (nat max_retries) 0 s"

section \<open>ZyeonAIService (services/ai_service.py)\<close>

text \<open>
  The three system prompts of the constructor. The dict has these three keys and no code
  changes it, so it is a record of three strings.
\<close>

record system_prompts =
  prompt_default :: string
  prompt_voice :: string
  prompt_technical :: string

definition default_prompt :: string where
  "default_prompt =
     ''You are ZYEON, an advanced AI assistant with a futuristic personality. \<newline>'' @
     ''            You are helpful, intelligent, and slightly mysterious. Keep responses concise but informative.\<newline>'' @
     ''            You have access to real-time capabilities and can process voice commands.\<newline>'' @
     ''            Always maintain a professional yet engaging tone. You can remember context from previous messages.''"

definition voice_prompt :: string where
  "voice_prompt =
     ''You are ZYEON, an advanced AI assistant optimized for voice interaction.\<newline>'' @
     ''            Keep responses brief and conversational, suitable for text-to-speech.\<newline>'' @
     ''            Avoid using special characters, markdown, or complex formatting.\<newline>'' @
     ''            Speak naturally as if having a conversation.''"

definition technical_prompt :: string where
  "technical_prompt =
     ''You are ZYEON, a technical AI assistant specializing in programming and technology.\<newline>'' @
     ''            Provide detailed, accurate technical information. Use code examples when helpful.\<newline>'' @
     ''            Explain complex concepts clearly and offer practical solutions.''"

record zyeon_ai_service =
  api_key :: string
  model :: string
  rate_limiter :: rate_limiter
  prompts :: system_prompts
  max_context_messages :: int
  max_tokens_per_request :: int

definition ZyeonAIService :: "string \<Rightarrow> string \<Rightarrow> zyeon_ai_service" where
  "ZyeonAIService key mdl =
     \<lparr>api_key = key, model = mdl, rate_limiter = RateLimiter 50 60,
      prompts = \<lparr>prompt_default = default_prompt, prompt_voice = voice_prompt,
                 prompt_technical = technical_prompt\<rparr>,
      max_context_messages = 20, max_tokens_per_request = 1000\<rparr>"

definition get_system_prompt :: "zyeon_ai_service \<Rightarrow> string \<Rightarrow> string" where
  "get_system_prompt svc context_type =
     (if context_type = ''default'' then prompt_default (prompts svc)
      else if context_type = ''voice'' then prompt_voice (prompts svc)
      else if context_type = ''technical'' then prompt_technical (prompts svc)
      else prompt_default (prompts svc))"

text \<open>
  A history entry is a dict; the service looks at two of its keys. \<open>None\<close> says that the key
  is absent. Records that extend \<open>py_turn\<close> are dicts with more keys.
\<close>

record py_turn =
  user_message :: "string option"
  ai_response :: "string option"

record chat_message =
  role :: string
  content :: string

fun add_history :: "chat_message list \<Rightarrow> 'a py_turn_scheme list \<Rightarrow> chat_message list" where
  "add_history messages [] = messages"
| "add_history messages (msg # rest) =
     add_history
       (case (user_message msg, ai_response msg) of
          (Some u, Some a) \<Rightarrow>
            messages @ [\<lparr>role = ''user'', content = u\<rparr>, \<lparr>role = ''assistant'', content = a\<rparr>]
        | _ \<Rightarrow> messages)
       rest"

definition prepare_conversation_context ::
  "zyeon_ai_service \<Rightarrow> 'a py_turn_scheme list \<Rightarrow> string \<Rightarrow> chat_message list" where
  "prepare_conversation_context svc conversation_history context_type =
     (let messages = [\<lparr>role = ''system'', content = get_system_prompt svc context_type\<rparr>];
          recent_history = slice_from (- max_context_messages svc) conversation_history
      in add_history messages recent_history)"

text \<open>
  The request given to \<^verbatim>\<open>client.chat.completions.create\<close> (the two penalties are the constant
  0.1) and what the service reads from its answer. \<open>elapsed\<close> is the time the call took. The
  upstream is a function of the number of requests it has received before and of the
  request; it raises or answers.
\<close>

record request =
  req_model :: string
  req_messages :: "chat_message list"
  req_max_tokens :: int
  req_temperature :: real

record completion =
  message_content :: string
  total_tokens :: int
  prompt_tokens :: int
  completion_tokens :: int
  elapsed :: real

type_synonym upstream = "nat \<Rightarrow> request \<Rightarrow> exn + completion"

text \<open>
  The state a call runs on: the service object, the clock that \<^verbatim>\<open>time.time()\<close> and
  \<^verbatim>\<open>datetime.now()\<close> read, the requests the upstream has received and the delays
  \<^verbatim>\<open>time.sleep\<close> was called with. The clock moves when the call sleeps and while the upstream
  answers; the readings in between are equal. \<open>round2\<close> is \<^verbatim>\<open>round(x, 2)\<close>: to two decimals, a
  tie going to the even neighbour.
\<close>

record ai_state =
  service :: zyeon_ai_service
  clock :: real
  sent :: "request list"
  slept :: "real list"

definition sleep :: "real \<Rightarrow> ai_state \<Rightarrow> ai_state" where
  "sleep d s = s\<lparr>clock := clock s + d, slept := slept s @ [d]\<rparr>"

text \<open>
  \<^verbatim>\<open>round(x, 2)\<close>: the nearest multiple of a hundredth, a tie going to the even one.
\<close>

definition round_half_even :: "real \<Rightarrow> int" where
  "round_half_even y =
     (if y - of_int \<lfloor>y\<rfloor> < 1 / 2 then \<lfloor>y\<rfloor>
      else if 1 / 2 < y - of_int \<lfloor>y\<rfloor> then \<lfloor>y\<rfloor> + 1
      else if even \<lfloor>y\<rfloor> then \<lfloor>y\<rfloor> else \<lfloor>y\<rfloor> + 1)"

definition round2 :: "real \<Rightarrow> real" where
  "round2 x = of_int (round_half_even (x * 100)) / 100"

text \<open>The \<^verbatim>\<open>try\<close> block of \<^verbatim>\<open>get_ai_response\<close>: it raises (\<open>Inl\<close>) or returns the reply.\<close>

definition get_ai_response_try ::
  "upstream \<Rightarrow> string \<Rightarrow> 'a py_turn_scheme list option \<Rightarrow> string \<Rightarrow> real \<Rightarrow> int option
   \<Rightarrow> ai_state \<Rightarrow> (exn + string \<times> metadata) \<times> ai_state" where
  "get_ai_response_try up user_input conversation_history context_type temperature max_tokens s =
     (let (admitted, rl) = can_make_call (clock s) (rate_limiter (service s));
          s1 = s\<lparr>service := (service s)\<lparr>rate_limiter := rl\<rparr>\<rparr>
      in if \<not> admitted then (Inl (Exception ''Rate limit exceeded. Please try again later.''), s1)
         else if user_input = [] \<or> strip user_input = []
           then (Inl (ValueError ''User input cannot be empty''), s1)
         else if api_key (service s1) = []
           then (Inl (ValueError ''OpenAI API key not configured''), s1)
         else
           let history = (case conversation_history of None \<Rightarrow> [] | Some h \<Rightarrow> h);
               messages = prepare_conversation_context (service s1) history context_type
                          @ [\<lparr>role = ''user'', content = strip user_input\<rparr>];
               mt = (case max_tokens of None \<Rightarrow> max_tokens_per_request (service s1) | Some m \<Rightarrow> m);
               s2 = s1\<lparr>service := (service s1)\<lparr>rate_limiter := record_call (clock s1) rl\<rparr>\<rparr>;
               req = \<lparr>req_model = model (service s2), req_messages = messages,
                      req_max_tokens = mt, req_temperature = temperature\<rparr>;
               s3 = s2\<lparr>sent := sent s2 @ [req]\<rparr>
           in case up (length (sent s2)) req of
                Inl e \<Rightarrow> (Inl e, s3)
              | Inr response \<Rightarrow>
                  (Inr (strip (message_content response),
                        [(''model'', PStr (model (service s3))),
                         (''context_type'', PStr context_type),
                         (''temperature'', PFloat temperature),
                         (''max_tokens'', PInt mt),
                         (''response_time'', PFloat (round2 (elapsed response))),
                         (''tokens_used'', PInt (total_tokens response)),
                         (''prompt_tokens'', PInt (prompt_tokens response)),
                         (''completion_tokens'', PInt (completion_tokens response)),
                         (''timestamp'', PIso (clock s3 + elapsed response))]),
                   s3\<lparr>clock := clock s3 + elapsed response\<rparr>))"

text \<open>The \<^verbatim>\<open>except Exception\<close> block: the reply chosen from the text of the failure.\<close>

definition degraded_response :: "exn \<Rightarrow> string \<times> metadata" where
  "degraded_response e =
     (if contains ''rate_limit'' (lower (str_exn e))
        then (''I'm experiencing high demand right now. Please try again in a moment.'', [])
      else if contains ''invalid'' (lower (str_exn e))
        then (''I'm having trouble processing your request. Please try rephrasing it.'', [])
      else if contains ''authentication'' (lower (str_exn e))
        then (''I'm experiencing authentication issues. Please contact support.'', [])
      else if contains ''connection'' (lower (str_exn e))
        then (''I'm having trouble connecting to my AI services. Please try again.'', [])
      else (''I apologize, but I'm experiencing technical difficulties. Please try again.'', []))"

text \<open>The function as written, \<^verbatim>\<open>try\<close> and \<^verbatim>\<open>except\<close> together, before the decorator.\<close>

definition get_ai_response_body ::
  "upstream \<Rightarrow> string \<Rightarrow> 'a py_turn_scheme list option \<Rightarrow> string \<Rightarrow> real \<Rightarrow> int option
   \<Rightarrow> ai_state \<Rightarrow> (exn + string \<times> metadata) \<times> ai_state" where
  "get_ai_response_body up user_input conversation_history context_type temperature max_tokens s =
     (case get_ai_response_try up user_input conversation_history context_type temperature
             max_tokens s of
        (Inl e, s') \<Rightarrow> (Inr (degraded_response e), s')
      | (Inr reply, s') \<Rightarrow> (Inr reply, s'))"

text \<open>The decorated method: \<^verbatim>\<open>@retry_on_failure(max_retries=3, delay=1.0)\<close>.\<close>

definition get_ai_response ::
  "upstream \<Rightarrow> string \<Rightarrow> 'a py_turn_scheme list option \<Rightarrow> string \<Rightarrow> real \<Rightarrow> int option
   \<Rightarrow> ai_state \<Rightarrow> (exn + (string \<times> metadata) option) \<times> ai_state" where
  "get_ai_response up user_input conversation_history context_type temperature max_tokens =
     retry_on_failure 3 1.0
       (get_ai_response_body up user_input conversation_history context_type temperature
          max_tokens)
       sleep"

subsection \<open>Derived notions and runs of the service\<close>

text \<open>
  The state after the admission check alone, the failure the check raises, and a run of
  calls, each made with the default arguments at a given clock reading.
\<close>

definition pruned :: "ai_state \<Rightarrow> ai_state" where
  "pruned s = s\<lparr>service := (service s)\<lparr>rate_limiter :=
                 snd (can_make_call (clock s) (rate_limiter (service s)))\<rparr>\<rparr>"

definition rate_limit_exceeded :: exn where
  "rate_limit_exceeded = Exception ''Rate limit exceeded. Please try again later.''"

fun calls_at ::
  "upstream \<Rightarrow> (real \<times> string) list \<Rightarrow> ai_state
   \<Rightarrow> (exn + (string \<times> metadata) option) list \<times> ai_state" where
  "calls_at up [] s = ([], s)"
| "calls_at up ((t, user_input) # rest) s =
     (case get_ai_response up user_input (None :: py_turn list option) ''default'' (7 / 10) None
             (s\<lparr>clock := t\<rparr>) of
        (r, s') \<Rightarrow> (case calls_at up rest s' of (rs, s'') \<Rightarrow> (r # rs, s'')))"

definition start_state :: "string \<Rightarrow> string \<Rightarrow> real \<Rightarrow> ai_state" where
  "start_state key mdl t0 = \<lparr>service = ZyeonAIService key mdl, clock = t0, sent = [], slept = []\<rparr>"

text \<open>
  Concrete inputs: an upstream that fails twice and then answers, a service just built, a
  service whose limiter holds fifty calls made one second ago, 61 calls half a second
  apart, and (below) an upstream that always fails, one that turns every request down with
  its rate-limit error, and one that always answers.
\<close>

definition fails_twice :: upstream where
  "fails_twice n req =
     (if n < 2 then Inl (UpstreamError ''Connection error.'')
      else Inr \<lparr>message_content = ''Hello from ZYEON'', total_tokens = 30, prompt_tokens = 20,
                completion_tokens = 10, elapsed = 1 / 2\<rparr>)"

definition fresh_state :: ai_state where
  "fresh_state = \<lparr>service = ZyeonAIService ''sk-test'' ''gpt-3.5-turbo'', clock = 0, sent = [],
                   slept = []\<rparr>"

definition saturated_state :: ai_state where
  "saturated_state =
     \<lparr>service = (ZyeonAIService ''sk-test'' ''gpt-3.5-turbo'')
                   \<lparr>rate_limiter := record_calls (replicate 50 0) (RateLimiter 50 60)\<rparr>,
      clock = 1, sent = [], slept = []\<rparr>"

definition half_seconds :: "(real \<times> string) list" where
  "half_seconds = map (\<lambda>i. (real i / 2, ''Hello'')) [0..<61]"

text \<open>The messages one history entry adds to the prompt: none unless it has both keys.\<close>

definition turn_messages :: "'a py_turn_scheme \<Rightarrow> chat_message list" where
  "turn_messages msg =
     (case (user_message msg, ai_response msg) of
        (Some u, Some a) \<Rightarrow> [\<lparr>role = ''user'', content = u\<rparr>, \<lparr>role = ''assistant'', content = a\<rparr>]
      | _ \<Rightarrow> [])"

definition always_fails :: upstream where
  "always_fails n req = Inl (UpstreamError ''Connection error.'')"

definition upstream_rate_limited :: upstream where
  "upstream_rate_limited n req = Inl (UpstreamError ''Error code: 429 - rate_limit_exceeded'')"

definition always_answers :: upstream where
  "always_answers n req =
     Inr \<lparr>message_content = ''Hello from ZYEON'', total_tokens = 30, prompt_tokens = 20,
          completion_tokens = 10, elapsed = 1 / 2\<rparr>"

section \<open>ConversationModel (models/conversation.py)\<close>

text \<open>
  A stored conversation is the dict that \<^verbatim>\<open>create_conversation\<close> builds: the two keys of a
  history entry and eight more. The three times are instants in seconds; the store keeps
  a date to the millisecond and drops the rest (\<open>ms\<close>). What \<^verbatim>\<open>get_conversation_history\<close>
  returns holds their ISO-8601 text instead (\<open>Iso t\<close> for the instant \<open>t\<close>).
\<close>

definition ms :: "real \<Rightarrow> real" where
  "ms t = of_int \<lfloor>t * 1000\<rfloor> / 1000"

datatype iso = Iso real

fun instant :: "iso \<Rightarrow> real" where
  "instant (Iso t) = t"

record 't conversation = py_turn +
  conversation_id :: string
  user_id :: string
  session_id :: "string option"
  timestamp :: 't
  message_type :: string
  metadata :: metadata
  created_at :: 't
  updated_at :: 't

record session_doc =
  session_id :: string
  user_id :: string
  metadata :: metadata
  created_at :: real
  updated_at :: real
  is_active :: bool
  ended_at :: "real option"

text \<open>
  The model object with its conversation and session collections, each in insertion order.
  \<open>available\<close> says whether the server answers: when it does not, every driver call raises.
  \<open>sessions_unique\<close> says whether the unique index on \<^verbatim>\<open>session_id\<close> exists
  (\<^verbatim>\<open>_create_indexes\<close> asks for it and only logs a failure). \<open>inserted\<close> counts the inserts; its
  decimal text stands for the \<^verbatim>\<open>inserted_id\<close> the driver hands out. \<open>tie_rank\<close> is the server's
  choice among documents of equal date, which it is free to make: of two such documents
  the one whose position in the collection has the smaller rank is served first, and
  positions of equal rank are served in insertion order. \<open>first_batch\<close> is the number of
  documents the server puts into the first batch of a reply: 101, or fewer (but at least
  one) when they are large. The strings and dicts handed to the store are taken to be ones
  the driver can encode.
\<close>

record conversation_model =
  available :: bool
  conversations :: "real conversation list"
  sessions :: "session_doc list"
  sessions_unique :: bool
  inserted :: nat
  tie_rank :: "nat \<Rightarrow> nat"
  first_batch :: nat

text \<open>\<^verbatim>\<open>x or default\<close> and \<^verbatim>\<open>if x:\<close> on an optional string: \<^verbatim>\<open>None\<close> and the empty string are false.\<close>

definition truthy :: "string option \<Rightarrow> bool" where
  "truthy v = (case v of None \<Rightarrow> False | Some x \<Rightarrow> x \<noteq> [])"

definition create_conversation ::
  "real \<Rightarrow> string \<Rightarrow> string \<Rightarrow> string \<Rightarrow> string option \<Rightarrow> string option \<Rightarrow> string
   \<Rightarrow> metadata option \<Rightarrow> conversation_model \<Rightarrow> exn + string \<times> conversation_model" where
  "create_conversation now user_message' ai_response' user_id' conversation_id' session_id'
     message_type' metadata' cm =
     (let conversation_data =
            \<lparr>user_message = Some user_message', ai_response = Some ai_response',
             conversation_id =
               (if truthy conversation_id' then the conversation_id'
                else ''conv_'' @ str_int (py_int now)),
             conversation.user_id = user_id',
             conversation.session_id = session_id',
             timestamp = ms now,
             message_type = message_type',
             conversation.metadata = (case metadata' of None \<Rightarrow> [] | Some m \<Rightarrow> m),
             conversation.created_at = ms now,
             conversation.updated_at = ms now\<rparr>
      in if \<not> available cm then Inl (PyMongoError ''server not available'')
         else Inr (str_nat (inserted cm),
                   cm\<lparr>conversations := conversations cm @ [conversation_data],
                      inserted := Suc (inserted cm)\<rparr>))"

text \<open>
  The query dict holds a key for each filter that is given and not empty; a document
  matches when it agrees on every key of the query.
\<close>

definition matches ::
  "string option \<Rightarrow> string option \<Rightarrow> string option \<Rightarrow> 't conversation \<Rightarrow> bool" where
  "matches user_id' conversation_id' session_id' d =
     ((if truthy user_id' then conversation.user_id d = the user_id' else True) \<and>
      (if truthy conversation_id' then conversation_id d = the conversation_id' else True) \<and>
      (if truthy session_id' then conversation.session_id d = session_id' else True))"

text \<open>
  The cursor works on the matching documents, each with its position in the collection.
  \<^verbatim>\<open>sort("timestamp", DESCENDING)\<close> puts later dates first and leaves documents of equal date
  in the order of their ranks; \<^verbatim>\<open>skip\<close> raises on a negative count; \<^verbatim>\<open>limit\<close> takes zero as no
  limit, and a negative count as its absolute value together with the request for a single
  batch, so that no more than the server's first batch comes back. When the cursor is read,
  the driver asks the server, and raises when there is none or when the skip or the limit
  does not fit into eight bytes.
\<close>

definition newest_first ::
  "(nat \<Rightarrow> nat) \<Rightarrow> (nat \<times> real conversation) list \<Rightarrow> real conversation list" where
  "newest_first rank ids =
     map snd (sort_key (\<lambda>p. - timestamp (snd p)) (sort_key (\<lambda>p. rank (fst p)) ids))"

definition cursor_limit :: "nat \<Rightarrow> int \<Rightarrow> 'a list \<Rightarrow> 'a list" where
  "cursor_limit batch n xs =
     (if n = 0 then xs
      else if 0 < n then take (nat n) xs
      else take (min (nat (- n)) batch) xs)"

definition isoformat_conversation :: "real conversation \<Rightarrow> iso conversation" where
  "isoformat_conversation d =
     \<lparr>user_message = user_message d, ai_response = ai_response d,
      conversation_id = conversation_id d,
      conversation.user_id = conversation.user_id d,
      conversation.session_id = conversation.session_id d,
      timestamp = Iso (timestamp d),
      message_type = message_type d,
      conversation.metadata = conversation.metadata d,
      conversation.created_at = Iso (conversation.created_at d),
      conversation.updated_at = Iso (conversation.updated_at d)\<rparr>"

definition get_conversation_history_try ::
  "conversation_model \<Rightarrow> string option \<Rightarrow> string option \<Rightarrow> string option \<Rightarrow> int \<Rightarrow> int
   \<Rightarrow> exn + iso conversation list" where
  "get_conversation_history_try cm user_id' conversation_id' session_id' limit offset =
     (if offset < 0 then Inl (ValueError ''The 'skip' parameter must be >= 0'')
      else if \<not> available cm then Inl (PyMongoError ''server not available'')
      else if 2 ^ 63 \<le> offset \<or> 2 ^ 63 \<le> \<bar>limit\<bar>
        then Inl (OverflowError ''MongoDB can only handle up to 8-byte ints'')
      else Inr (map isoformat_conversation
                  (cursor_limit (first_batch cm) limit
                     (drop (nat offset)
                        (newest_first (tie_rank cm)
                           (filter (\<lambda>p. matches user_id' conversation_id' session_id' (snd p))
                              (enumerate 0 (conversations cm))))))))"

definition get_conversation_history ::
  "conversation_model \<Rightarrow> string option \<Rightarrow> string option \<Rightarrow> string option \<Rightarrow> int \<Rightarrow> int
   \<Rightarrow> iso conversation list" where
  "get_conversation_history cm user_id' conversation_id' session_id' limit offset =
     (case get_conversation_history_try cm user_id' conversation_id' session_id' limit offset of
        Inl e \<Rightarrow> []
      | Inr convs \<Rightarrow> convs)"

definition create_session ::
  "real \<Rightarrow> string \<Rightarrow> string \<Rightarrow> metadata option \<Rightarrow> conversation_model
   \<Rightarrow> exn + string \<times> conversation_model" where
  "create_session now user_id' session_id' metadata' cm =
     (let session_data =
            \<lparr>session_id = session_id', user_id = user_id',
             metadata = (case metadata' of None \<Rightarrow> [] | Some m \<Rightarrow> m),
             created_at = ms now, updated_at = ms now, is_active = True, ended_at = None\<rparr>
      in if \<not> available cm then Inl (PyMongoError ''server not available'')
         else if sessions_unique cm \<and> session_id' \<in> set (map session_id (sessions cm))
           then Inl (DuplicateKeyError ''duplicate key: session_id'')
         else Inr (str_nat (inserted cm),
                   cm\<lparr>sessions := sessions cm @ [session_data], inserted := Suc (inserted cm)\<rparr>))"

text \<open>\<^verbatim>\<open>update_one\<close> changes the first document that matches the filter, if there is one.\<close>

fun update_one :: "('a \<Rightarrow> bool) \<Rightarrow> ('a \<Rightarrow> 'a) \<Rightarrow> 'a list \<Rightarrow> 'a list" where
  "update_one P f [] = []"
| "update_one P f (d # ds) = (if P d then f d # ds else d # update_one P f ds)"

definition end_session_try :: "real \<Rightarrow> string \<Rightarrow> conversation_model \<Rightarrow> exn + conversation_model" where
  "end_session_try now session_id' cm =
     (if \<not> available cm then Inl (PyMongoError ''server not available'')
      else Inr (cm\<lparr>sessions :=
                  update_one (\<lambda>d. session_id d = session_id')
                    (\<lambda>d. d\<lparr>is_active := False, ended_at := Some (ms now), updated_at := ms now\<rparr>)
                    (sessions cm)\<rparr>))"

definition end_session :: "real \<Rightarrow> string \<Rightarrow> conversation_model \<Rightarrow> conversation_model" where
  "end_session now session_id' cm =
     (case end_session_try now session_id' cm of Inl e \<Rightarrow> cm | Inr cm' \<Rightarrow> cm')"

definition cleanup_old_conversations ::
  "real \<Rightarrow> int \<Rightarrow> conversation_model \<Rightarrow> int \<times> conversation_model" where
  "cleanup_old_conversations now days cm =
     (if \<not> available cm then (0, cm)
      else (int (length (filter (\<lambda>d. timestamp d < now - of_int days * 86400) (conversations cm))),
            cm\<lparr>conversations :=
                 filter (\<lambda>d. \<not> timestamp d < now - of_int days * 86400) (conversations cm)\<rparr>))"

text \<open>
  The operations that write to the store, the server going down or coming back and the
  server changing its order among equal dates or the size of its first batch, as events; an
  operation that raises leaves the store as it was. (The user operations write to a third collection only, which the
  model does not carry.)
\<close>

datatype model_event =
    CreateConversation real string string string "string option" "string option" string
      "metadata option"
  | CreateSession real string string "metadata option"
  | EndSession real string
  | Cleanup real int
  | ServerUp bool
  | ServerOrder "nat \<Rightarrow> nat"
  | ServerBatch nat

fun model_step :: "conversation_model \<Rightarrow> model_event \<Rightarrow> conversation_model" where
  "model_step cm (CreateConversation now um ar uid cid sid mty md) =
     (case create_conversation now um ar uid cid sid mty md cm of
        Inl e \<Rightarrow> cm | Inr (oid, cm') \<Rightarrow> cm')"
| "model_step cm (CreateSession now uid sid md) =
     (case create_session now uid sid md cm of Inl e \<Rightarrow> cm | Inr (oid, cm') \<Rightarrow> cm')"
| "model_step cm (EndSession now sid) = end_session now sid cm"
| "model_step cm (Cleanup now days) = snd (cleanup_old_conversations now days cm)"
| "model_step cm (ServerUp b) = cm\<lparr>available := b\<rparr>"
| "model_step cm (ServerOrder rank) = cm\<lparr>tie_rank := rank\<rparr>"
| "model_step cm (ServerBatch n) = cm\<lparr>first_batch := n\<rparr>"

fun model_run :: "conversation_model \<Rightarrow> model_event list \<Rightarrow> conversation_model" where
  "model_run cm [] = cm"
| "model_run cm (ev # evs) = model_run (model_step cm ev) evs"

definition ConversationModel :: conversation_model where
  "ConversationModel =
     \<lparr>available = True, conversations = [], sessions = [], sessions_unique = True, inserted = 0,
      tie_rank = (\<lambda>i. 0), first_batch = 101\<rparr>"

subsection \<open>Derived notions and concrete stores\<close>

text \<open>
  \<open>stays_closed d d'\<close>: the later document \<open>d'\<close> is the session \<open>d\<close>, and is not active unless
  \<open>d\<close> was. \<open>closed_for_good sid cm\<close>: the index is there, the session ids are distinct, the
  session \<open>sid\<close> exists and no document of that id is active.
\<close>

definition stays_closed :: "session_doc \<Rightarrow> session_doc \<Rightarrow> bool" where
  "stays_closed d d' \<longleftrightarrow> session_id d' = session_id d \<and> (is_active d \<or> \<not> is_active d')"

definition closed_for_good :: "string \<Rightarrow> conversation_model \<Rightarrow> bool" where
  "closed_for_good sid cm \<longleftrightarrow>
     sessions_unique cm \<and> distinct (map session_id (sessions cm)) \<and>
     sid \<in> set (map session_id (sessions cm)) \<and>
     list_all (\<lambda>d. session_id d \<noteq> sid \<or> \<not> is_active d) (sessions cm)"

text \<open>
  A store with one live session; a store with three turns of one user; and a store with
  thirty turns, turn \<open>i\<close> written at second \<open>i\<close> with the texts \<^verbatim>\<open>question i\<close> and \<^verbatim>\<open>answer i\<close>.
\<close>

definition one_session :: conversation_model where
  "one_session = model_run ConversationModel [CreateSession 0 ''user_1'' ''session_1'' None]"

definition three_turns :: conversation_model where
  "three_turns =
     model_run ConversationModel
       [CreateConversation 10 ''first'' ''one'' ''user_1'' (Some ''c1'') None ''text'' None,
        CreateConversation 20 ''second'' ''two'' ''user_1'' (Some ''c1'') None ''text'' None,
        CreateConversation 30 ''third'' ''three'' ''user_1'' (Some ''c1'') None ''text'' None]"

definition turn_doc :: "nat \<Rightarrow> real conversation" where
  "turn_doc i =
     \<lparr>user_message = Some (''question '' @ str_nat i), ai_response = Some (''answer '' @ str_nat i),
      conversation_id = ''c1'', conversation.user_id = ''user_1'',
      conversation.session_id = None, timestamp = real i, message_type = ''text'',
      conversation.metadata = [], conversation.created_at = real i,
      conversation.updated_at = real i\<rparr>"

definition turn_number :: "nat \<Rightarrow> model_event" where
  "turn_number i =
     CreateConversation (real i) (''question '' @ str_nat i) (''answer '' @ str_nat i) ''user_1''
       (Some ''c1'') None ''text'' None"

definition thirty_turns :: conversation_model where
  "thirty_turns = model_run ConversationModel (map turn_number [1..<31])"

section \<open>VoiceService (services/voice_service.py)\<close>

text \<open>
  The fields the listening operations read and write. An engine, recognizer or microphone
  is there or is \<^verbatim>\<open>None\<close>; the thread object is absent or is alive or not; a callback, when
  one is set, returns or raises when it is called.
\<close>

datatype callback = Returns | Raises string

record voice_service =
  is_listening :: bool
  is_speaking :: bool
  voice_thread :: "bool option"
  tts_engine :: bool
  recognizer :: bool
  microphone :: bool
  on_speech_recognized :: "callback option"
  on_speech_error :: "callback option"
  on_listening_started :: "callback option"
  on_listening_stopped :: "callback option"
  on_speaking_started :: "callback option"
  on_speaking_finished :: "callback option"

text \<open>
  The constructor: \<^verbatim>\<open>_initialize_speech_recognition\<close> leaves both the recognizer and the
  microphone set, or both \<^verbatim>\<open>None\<close>.
\<close>

definition VoiceService :: "bool \<Rightarrow> bool \<Rightarrow> voice_service" where
  "VoiceService tts_ok capture_ok =
     \<lparr>is_listening = False, is_speaking = False, voice_thread = None, tts_engine = tts_ok,
      recognizer = capture_ok, microphone = capture_ok,
      on_speech_recognized = None, on_speech_error = None, on_listening_started = None,
      on_listening_stopped = None, on_speaking_started = None, on_speaking_finished = None\<rparr>"

definition raises :: "callback option \<Rightarrow> bool" where
  "raises cb = (case cb of Some (Raises m) \<Rightarrow> True | _ \<Rightarrow> False)"

text \<open>\<open>thread_starts\<close>: whether \<^verbatim>\<open>Thread.start()\<close> succeeds.\<close>

definition start_listening :: "bool \<Rightarrow> voice_service \<Rightarrow> bool \<times> voice_service" where
  "start_listening thread_starts vs =
     (if \<not> recognizer vs \<or> \<not> microphone vs then (False, vs)
      else if is_listening vs then (True, vs)
      else if \<not> thread_starts
        then (False, vs\<lparr>is_listening := False, voice_thread := Some False\<rparr>)
      else if raises (on_listening_started vs)
        then (False, vs\<lparr>is_listening := False, voice_thread := Some True\<rparr>)
      else (True, vs\<lparr>is_listening := True, voice_thread := Some True\<rparr>))"

text \<open>
  \<open>exits\<close>: whether a live listening thread ends within the two seconds of the join. (The
  join itself raises only when a thread joins itself, which the listening loop never does.)
\<close>

definition stop_listening :: "bool \<Rightarrow> voice_service \<Rightarrow> bool \<times> voice_service" where
  "stop_listening exits vs =
     (let vs1 = vs\<lparr>is_listening := False\<rparr>;
          vs2 = (if voice_thread vs1 = Some True \<and> exits then vs1\<lparr>voice_thread := Some False\<rparr>
                 else vs1)
      in if raises (on_listening_stopped vs2) then (False, vs2) else (True, vs2))"

text \<open>
  What can happen to a service: the two operations, the end of the listening loop (its
  \<^verbatim>\<open>finally\<close> clears the flag), new callbacks, and a speech thread setting or clearing
  \<^verbatim>\<open>is_speaking\<close>.
\<close>

datatype voice_event =
    StartListening bool
  | StopListening bool
  | ListenLoopEnds
  | SetCallbacks "callback option" "callback option" "callback option" "callback option"
      "callback option" "callback option"
  | Speaking bool

fun voice_step :: "voice_service \<Rightarrow> voice_event \<Rightarrow> voice_service" where
  "voice_step vs (StartListening thread_starts) = snd (start_listening thread_starts vs)"
| "voice_step vs (StopListening exits) = snd (stop_listening exits vs)"
| "voice_step vs ListenLoopEnds =
     vs\<lparr>is_listening := False, voice_thread := map_option (\<lambda>alive. False) (voice_thread vs)\<rparr>"
| "voice_step vs (SetCallbacks a b c d e f) =
     vs\<lparr>on_speech_recognized := a, on_speech_error := b, on_listening_started := c,
        on_listening_stopped := d, on_speaking_started := e, on_speaking_finished := f\<rparr>"
| "voice_step vs (Speaking b) = vs\<lparr>is_speaking := b\<rparr>"

fun voice_run :: "voice_service \<Rightarrow> voice_event list \<Rightarrow> voice_service" where
  "voice_run vs [] = vs"
| "voice_run vs (ev # evs) = voice_run (voice_step vs ev) evs"

text \<open>A service with devices whose stop callback raises; listening was never started.\<close>

definition silent_service :: voice_service where
  "silent_service =
     voice_run (VoiceService True True)
       [SetCallbacks None None None (Some (Raises ''emit failed'')) None None]"

section \<open>Facts\<close>

subsection \<open>The limiter\<close>

lemma record_calls_calls: "calls (record_calls ts rl) = calls rl @ ts"
  by (induction ts arbitrary: rl) (simp_all add: record_call_def)

lemma record_calls_max_calls: "max_calls (record_calls ts rl) = max_calls rl"
  by (induction ts arbitrary: rl) (simp_all add: record_call_def)

lemma record_calls_time_window: "time_window (record_calls ts rl) = time_window rl"
  by (induction ts arbitrary: rl) (simp_all add: record_call_def)

lemma limiter_step_time_window: "time_window (limiter_step rl ev) = time_window rl"
  by (cases ev) (simp_all add: can_make_call_def record_call_def Let_def)

lemma limiter_step_max_calls: "max_calls (limiter_step rl ev) = max_calls rl"
  by (cases ev) (simp_all add: can_make_call_def record_call_def Let_def)

lemma limiter_run_time_window: "time_window (limiter_run rl evs) = time_window rl"
  by (induction evs arbitrary: rl) (simp_all add: limiter_step_time_window)

lemma limiter_run_max_calls: "max_calls (limiter_run rl evs) = max_calls rl"
  by (induction evs arbitrary: rl) (simp_all add: limiter_step_max_calls)

lemma limiter_run_in_window:
  assumes "\<forall>t \<in> set (check_times evs). t \<le> now"
  shows "in_window rl now (calls (limiter_run rl evs)) =
         in_window rl now (calls rl @ recorded evs)"
  using assms
proof (induction evs arbitrary: rl)
  case Nil
  then show ?case by simp
next
  case (Cons ev evs)
  show ?case
  proof (cases ev)
    case (Check t)
    with Cons.prems have le: "t \<le> now" and rest: "\<forall>u \<in> set (check_times evs). u \<le> now"
      by simp_all
    have keep: "in_window rl now (filter (\<lambda>c. t - c < of_int (time_window rl)) (calls rl)) =
                in_window rl now (calls rl)"
      unfolding in_window_def filter_filter
      by (rule filter_cong) (use le in auto)
    have "in_window rl now (calls (limiter_run rl (ev # evs))) =
          in_window (limiter_step rl ev) now (calls (limiter_run (limiter_step rl ev) evs))"
      by (simp add: in_window_def limiter_step_time_window)
    also have "\<dots> = in_window (limiter_step rl ev) now (calls (limiter_step rl ev) @ recorded evs)"
      by (rule Cons.IH [OF rest])
    also have "\<dots> = in_window rl now (calls rl @ recorded (ev # evs))"
      using keep Check by (simp add: in_window_def can_make_call_def Let_def)
    finally show ?thesis .
  next
    case (Record t)
    with Cons.prems have rest: "\<forall>u \<in> set (check_times evs). u \<le> now"
      by simp
    have "in_window rl now (calls (limiter_run rl (ev # evs))) =
          in_window (limiter_step rl ev) now (calls (limiter_run (limiter_step rl ev) evs))"
      by (simp add: in_window_def limiter_step_time_window)
    also have "\<dots> = in_window (limiter_step rl ev) now (calls (limiter_step rl ev) @ recorded evs)"
      by (rule Cons.IH [OF rest])
    also have "\<dots> = in_window rl now (calls rl @ recorded (ev # evs))"
      using Record by (simp add: in_window_def record_call_def)
    finally show ?thesis .
  qed
qed

text \<open>
  The same count decides a check that follows any mix of earlier checks and records, when
  no earlier check read a later clock.
\<close>

lemma can_make_call_interleaved:
  assumes "\<forall>t \<in> set (check_times evs). t \<le> now"
  shows "fst (can_make_call now (limiter_run (RateLimiter mc tw) evs)) \<longleftrightarrow>
         int (length (filter (\<lambda>t. now - t < of_int tw) (recorded evs))) < mc"
proof -
  have "in_window (RateLimiter mc tw) now (calls (limiter_run (RateLimiter mc tw) evs)) =
        in_window (RateLimiter mc tw) now (calls (RateLimiter mc tw) @ recorded evs)"
    by (rule limiter_run_in_window [OF assms])
  then show ?thesis
    by (simp add: can_make_call_def Let_def in_window_def limiter_run_time_window
        limiter_run_max_calls RateLimiter_def)
qed

text \<open>
  C4. After any sequence of \<^verbatim>\<open>record_call\<close> invocations on a fresh limiter, and at any
  check time, \<^verbatim>\<open>can_make_call()\<close> answers false exactly when at least \<^verbatim>\<open>max_calls\<close> of the
  recorded calls lie strictly less than \<^verbatim>\<open>time_window\<close> seconds before the check; a recorded
  call that is \<^verbatim>\<open>time_window\<close> seconds old or older is not counted.
\<close>

theorem can_make_call_iff_window_full:
  "fst (can_make_call now (record_calls ts (RateLimiter mc tw))) = False \<longleftrightarrow>
   mc \<le> int (length (filter (\<lambda>t. now - t < of_int tw) ts))"
  by (simp add: can_make_call_def Let_def record_calls_calls record_calls_max_calls
      record_calls_time_window RateLimiter_def not_less)

text \<open>
  C6 (as amended). \<^verbatim>\<open>can_make_call()\<close> is not a pure read: it replaces the log by the
  entries that are still inside the window, in their order. It leaves \<^verbatim>\<open>max_calls\<close> and
  \<^verbatim>\<open>time_window\<close> alone and adds no entry; the limiter is unchanged exactly when every
  logged call is still inside the window, and a second check at the same clock reading
  gives the same answer and changes nothing more.
\<close>

theorem can_make_call_prunes_log:
  "calls (snd (can_make_call now rl)) = in_window rl now (calls rl) \<and>
   max_calls (snd (can_make_call now rl)) = max_calls rl \<and>
   time_window (snd (can_make_call now rl)) = time_window rl \<and>
   set (calls (snd (can_make_call now rl))) \<subseteq> set (calls rl) \<and>
   (snd (can_make_call now rl) = rl \<longleftrightarrow> in_window rl now (calls rl) = calls rl) \<and>
   can_make_call now (snd (can_make_call now rl)) = can_make_call now rl"
proof -
  let ?after = "snd (can_make_call now rl)"
  have after: "?after = rl\<lparr>calls := in_window rl now (calls rl)\<rparr>"
    by (simp add: can_make_call_def Let_def in_window_def)
  have log: "calls ?after = in_window rl now (calls rl)"
    and frame: "max_calls ?after = max_calls rl" "time_window ?after = time_window rl"
    by (simp_all add: after)
  have subset: "set (calls ?after) \<subseteq> set (calls rl)"
    by (auto simp: log in_window_def)
  have same: "?after = rl \<longleftrightarrow> in_window rl now (calls rl) = calls rl"
  proof
    assume "?after = rl"
    then have "calls ?after = calls rl" by simp
    then show "in_window rl now (calls rl) = calls rl" by (simp add: log)
  next
    assume "in_window rl now (calls rl) = calls rl"
    then show "?after = rl" by (simp add: after)
  qed
  have again: "can_make_call now ?after = can_make_call now rl"
    by (simp add: can_make_call_def Let_def)
  from log frame subset same again show ?thesis by blast
qed

text \<open>
  C6 as stated fails: a limiter that holds one call recorded 100 seconds before the check
  is not the same after the check, the call is gone from its log.
\<close>

theorem can_make_call_changes_log:
  "snd (can_make_call 100 (record_call 0 (RateLimiter 50 60))) \<noteq> record_call 0 (RateLimiter 50 60)"
  by (simp add: can_make_call_def record_call_def RateLimiter_def Let_def)

subsection \<open>The retry wrapper and the failure replies\<close>

lemma strip_Nil: "strip [] = []"
  by (simp add: strip_def lstrip_def rstrip_def)

lemma strip_Hello: "strip ''Hello'' = ''Hello''"
  by (simp add: strip_def lstrip_def rstrip_def is_space_def is_space2_def is_space3_def)

lemma strip_reply: "strip ''Hello from ZYEON'' = ''Hello from ZYEON''"
  by (simp add: strip_def lstrip_def rstrip_def is_space_def is_space2_def is_space3_def)

text \<open>A NO-BREAK SPACE alone (the bytes C2 A0) is blank, as it is for \<^verbatim>\<open>str.strip()\<close>.\<close>

lemma strip_no_break_space: "strip [CHR 0xC2, CHR 0xA0] = []"
  by (simp add: strip_def lstrip_def rstrip_def is_space_def is_space2_def is_space3_def)

text \<open>
  The function body catches every exception, so the wrapper's first attempt always returns
  and the loop never reaches its second iteration.
\<close>

lemma get_ai_response_eq:
  "get_ai_response up ui h ct t mt s =
     (case get_ai_response_try up ui h ct t mt s of
        (Inl e, s') \<Rightarrow> (Inr (Some (degraded_response e)), s')
      | (Inr reply, s') \<Rightarrow> (Inr (Some reply), s'))"
proof -
  have three: "nat 3 = Suc (Suc (Suc 0))" by simp
  show ?thesis
    unfolding get_ai_response_def retry_on_failure_def three
    by (simp add: get_ai_response_body_def split: prod.splits sum.splits)
qed

lemma snd_get_ai_response:
  "snd (get_ai_response up ui h ct t mt s) = snd (get_ai_response_try up ui h ct t mt s)"
  by (simp add: get_ai_response_eq split: prod.splits sum.splits)

lemma slept_get_ai_response:
  "slept (snd (get_ai_response up ui h ct t mt s)) = slept s"
  by (simp add: snd_get_ai_response get_ai_response_try_def case_prod_beta Let_def
      split: sum.splits)

lemma retry_on_failure_first_success:
  assumes "0 < max_retries" and "func s = (Inr v, s')"
  shows "retry_on_failure max_retries delay func sleep' s = (Inr (Some v), s')"
proof -
  obtain k where "nat max_retries = Suc k"
    using assms(1) by (cases "nat max_retries") auto
  then show ?thesis
    using assms(2) by (simp add: retry_on_failure_def)
qed

lemma get_ai_response_try_rejected:
  assumes "\<not> fst (can_make_call (clock s) (rate_limiter (service s)))"
  shows "get_ai_response_try up ui h ct t mt s = (Inl rate_limit_exceeded, pruned s)"
  using assms
  by (simp add: get_ai_response_try_def pruned_def rate_limit_exceeded_def case_prod_beta Let_def)

lemma get_ai_response_rejected:
  assumes "\<not> fst (can_make_call (clock s) (rate_limiter (service s)))"
  shows "get_ai_response up ui h ct t mt s =
           (Inr (Some (degraded_response rate_limit_exceeded)), pruned s)"
  by (simp add: get_ai_response_eq get_ai_response_try_rejected [OF assms])

lemma pruned_frame:
  "sent (pruned s) = sent s" "slept (pruned s) = slept s" "clock (pruned s) = clock s"
  "calls (rate_limiter (service (pruned s))) =
     in_window (rate_limiter (service s)) (clock s) (calls (rate_limiter (service s)))"
  by (simp_all add: pruned_def can_make_call_def Let_def in_window_def)

lemma degraded_rate_limit_exceeded:
  "degraded_response rate_limit_exceeded =
     (''I apologize, but I'm experiencing technical difficulties. Please try again.'', [])"
  by (simp add: degraded_response_def rate_limit_exceeded_def lower_def lower_char_def)

text \<open>A failure whose text carries the upstream's error code does get the rate-limit reply.\<close>

lemma degraded_upstream_rate_limit:
  "degraded_response (UpstreamError ''Error code: 429 - rate_limit_exceeded'') =
     (''I'm experiencing high demand right now. Please try again in a moment.'', [])"
  by (simp add: degraded_response_def lower_def lower_char_def)

lemma degraded_connection:
  "degraded_response (UpstreamError ''Connection error.'') =
     (''I'm having trouble connecting to my AI services. Please try again.'', [])"
  by (simp add: degraded_response_def lower_def lower_char_def)

lemma degraded_response_cases:
  "degraded_response e \<in>
     {(''I'm experiencing high demand right now. Please try again in a moment.'', []),
      (''I'm having trouble processing your request. Please try rephrasing it.'', []),
      (''I'm experiencing authentication issues. Please contact support.'', []),
      (''I'm having trouble connecting to my AI services. Please try again.'', []),
      (''I apologize, but I'm experiencing technical difficulties. Please try again.'', [])}"
  unfolding degraded_response_def by (simp del: contains.simps)

lemma get_ai_response_try_effects:
  "(sent (snd (get_ai_response_try up ui h ct t mt s)) = sent s \<and>
    calls (rate_limiter (service (snd (get_ai_response_try up ui h ct t mt s)))) =
      calls (rate_limiter (service (pruned s)))) \<or>
   (fst (can_make_call (clock s) (rate_limiter (service s))) \<and>
    (\<exists>req. sent (snd (get_ai_response_try up ui h ct t mt s)) = sent s @ [req]) \<and>
    calls (rate_limiter (service (snd (get_ai_response_try up ui h ct t mt s)))) =
      calls (rate_limiter (service (pruned s))) @ [clock s])"
  by (simp add: get_ai_response_try_def pruned_def case_prod_beta Let_def record_call_def
      split: sum.splits)

lemma saturated_rejected:
  "\<not> fst (can_make_call (clock saturated_state) (rate_limiter (service saturated_state)))"
  by (simp add: saturated_state_def can_make_call_def Let_def record_calls_calls
      record_calls_max_calls record_calls_time_window RateLimiter_def ZyeonAIService_def)

lemma fresh_try:
  "get_ai_response_try fails_twice ''Hello'' (None :: py_turn list option) ''default'' (7 / 10) None
     fresh_state =
   (Inl (UpstreamError ''Connection error.''),
    fresh_state\<lparr>service := (service fresh_state)\<lparr>rate_limiter := record_call 0 (RateLimiter 50 60)\<rparr>,
      sent := [\<lparr>req_model = ''gpt-3.5-turbo'',
                req_messages = [\<lparr>role = ''system'', content = default_prompt\<rparr>,
                                \<lparr>role = ''user'', content = ''Hello''\<rparr>],
                req_max_tokens = 1000, req_temperature = 7 / 10\<rparr>]\<rparr>)"
  by (simp add: get_ai_response_try_def fresh_state_def ZyeonAIService_def RateLimiter_def
      can_make_call_def Let_def strip_Hello record_call_def fails_twice_def
      prepare_conversation_context_def slice_from_def get_system_prompt_def)

text \<open>
  The wrapper itself retries a function that raises: around the \<^verbatim>\<open>try\<close> block alone, the
  upstream that fails twice is called three times, with sleeps of 1 and 2 seconds, and the
  third answer is returned; with an upstream that always fails, the third failure comes
  out of the wrapper.
\<close>

lemma retry_of_try_block:
  "(\<exists>md. fst (retry_on_failure 3 1 (get_ai_response_try fails_twice ''Hello''
          (None :: py_turn list option) ''default'' (7 / 10) None) sleep fresh_state) =
        Inr (Some (''Hello from ZYEON'', md))) \<and>
   length (sent (snd (retry_on_failure 3 1 (get_ai_response_try fails_twice ''Hello''
          (None :: py_turn list option) ''default'' (7 / 10) None) sleep fresh_state))) = 3 \<and>
   slept (snd (retry_on_failure 3 1 (get_ai_response_try fails_twice ''Hello''
          (None :: py_turn list option) ''default'' (7 / 10) None) sleep fresh_state)) = [1, 2]"
  by (simp add: retry_on_failure_def eval_nat_numeral get_ai_response_try_def fresh_state_def
      ZyeonAIService_def RateLimiter_def can_make_call_def Let_def strip_Hello strip_reply
      record_call_def fails_twice_def sleep_def prepare_conversation_context_def slice_from_def
      get_system_prompt_def)

lemma retry_of_try_block_exhausted:
  "fst (retry_on_failure 3 1 (get_ai_response_try always_fails ''Hello''
          (None :: py_turn list option) ''default'' (7 / 10) None) sleep fresh_state) =
     Inl (UpstreamError ''Connection error.'') \<and>
   length (sent (snd (retry_on_failure 3 1 (get_ai_response_try always_fails ''Hello''
          (None :: py_turn list option) ''default'' (7 / 10) None) sleep fresh_state))) = 3 \<and>
   slept (snd (retry_on_failure 3 1 (get_ai_response_try always_fails ''Hello''
          (None :: py_turn list option) ''default'' (7 / 10) None) sleep fresh_state)) = [1, 2]"
  by (simp add: retry_on_failure_def eval_nat_numeral get_ai_response_try_def fresh_state_def
      ZyeonAIService_def RateLimiter_def can_make_call_def Let_def strip_Hello
      record_call_def always_fails_def sleep_def prepare_conversation_context_def slice_from_def
      get_system_prompt_def)

text \<open>
  C1. The claim asks that, with an upstream that fails twice and then answers,
  \<^verbatim>\<open>get_ai_response\<close> returns that answer after three attempts and sleeps of 1 and 2 seconds.
  The code does not: the first failure is caught inside the function and turned into the
  connectivity apology, the upstream receives one request and nothing is slept.
\<close>

theorem get_ai_response_gives_up_after_first_failure:
  "fst (get_ai_response fails_twice ''Hello'' (None :: py_turn list option) ''default'' (7 / 10) None
          fresh_state) =
     Inr (Some (''I'm having trouble connecting to my AI services. Please try again.'', [])) \<and>
   length (sent (snd (get_ai_response fails_twice ''Hello'' (None :: py_turn list option)
                        ''default'' (7 / 10) None fresh_state))) = 1 \<and>
   slept (snd (get_ai_response fails_twice ''Hello'' (None :: py_turn list option)
                 ''default'' (7 / 10) None fresh_state)) = []"
  unfolding get_ai_response_eq fresh_try
  by (simp add: degraded_connection fresh_state_def)

text \<open>
  The call always returns a pair, and after a failure the pair is one of the five fixed
  replies with empty metadata.
\<close>

lemma get_ai_response_never_raises:
  "\<exists>reply md. fst (get_ai_response up ui h ct t mt s) = Inr (Some (reply, md))"
  by (cases "get_ai_response_try up ui h ct t mt s")
    (auto simp: get_ai_response_eq split: sum.splits intro: prod.exhaust)

lemma get_ai_response_failure_reply:
  assumes "fst (get_ai_response_try up ui h ct t mt s) = Inl e"
  shows "fst (get_ai_response up ui h ct t mt s) = Inr (Some (degraded_response e))"
    and "snd (degraded_response e) = []"
  using assms degraded_response_cases [of e]
  by (auto simp: get_ai_response_eq split: prod.splits sum.splits)

text \<open>
  C2. The claim asks that a call rejected by the rate limiter is answered with the
  rate-limit apology. The code answers with the generic apology: the failure it raises reads
  \<^verbatim>\<open>Rate limit exceeded. ...\<close>, and the handler looks for \<^verbatim>\<open>rate_limit\<close>, with an underscore.
  No request reaches the upstream.
\<close>

theorem rate_limit_rejection_gets_generic_apology:
  "fst (get_ai_response fails_twice ''Hello'' (None :: py_turn list option) ''default'' (7 / 10) None
          saturated_state) =
     Inr (Some (''I apologize, but I'm experiencing technical difficulties. Please try again.'', [])) \<and>
   sent (snd (get_ai_response fails_twice ''Hello'' (None :: py_turn list option) ''default''
                (7 / 10) None saturated_state)) = []"
  unfolding get_ai_response_eq get_ai_response_try_rejected [OF saturated_rejected]
  by (simp add: degraded_rate_limit_exceeded pruned_def saturated_state_def)

subsection \<open>Admission\<close>

lemma get_ai_response_admitted_step:
  assumes input: "strip u \<noteq> []"
    and key: "api_key (service s) \<noteq> []"
    and fresh: "\<forall>c \<in> set (calls (rate_limiter (service s))).
                  clock s - c < of_int (time_window (rate_limiter (service s)))"
    and room: "int (length (calls (rate_limiter (service s)))) < max_calls (rate_limiter (service s))"
  shows "calls (rate_limiter (service (snd (get_ai_response up u h ct t mt s)))) =
           calls (rate_limiter (service s)) @ [clock s] \<and>
         length (sent (snd (get_ai_response up u h ct t mt s))) = Suc (length (sent s)) \<and>
         api_key (service (snd (get_ai_response up u h ct t mt s))) = api_key (service s) \<and>
         max_calls (rate_limiter (service (snd (get_ai_response up u h ct t mt s)))) =
           max_calls (rate_limiter (service s)) \<and>
         time_window (rate_limiter (service (snd (get_ai_response up u h ct t mt s)))) =
           time_window (rate_limiter (service s))"
proof -
  have u: "u \<noteq> []" using input strip_Nil by auto
  have kept: "filter (\<lambda>c. clock s - c < of_int (time_window (rate_limiter (service s))))
                (calls (rate_limiter (service s))) = calls (rate_limiter (service s))"
    using fresh by (simp add: filter_id_conv)
  show ?thesis
    using input u key room kept
    by (simp add: get_ai_response_eq get_ai_response_try_def can_make_call_def Let_def
        record_call_def split: sum.splits)
qed

lemma calls_at_all_admitted:
  assumes "\<forall>u \<in> set (map snd cs). strip u \<noteq> []"
    and "api_key (service s) \<noteq> []"
    and "\<forall>c \<in> set (calls (rate_limiter (service s))) \<union> set (map fst cs).
           \<forall>t \<in> set (map fst cs). t - c < of_int (time_window (rate_limiter (service s)))"
    and "int (length (calls (rate_limiter (service s))) + length cs)
           \<le> max_calls (rate_limiter (service s))"
  shows "calls (rate_limiter (service (snd (calls_at up cs s)))) =
           calls (rate_limiter (service s)) @ map fst cs \<and>
         length (sent (snd (calls_at up cs s))) = length (sent s) + length cs \<and>
         api_key (service (snd (calls_at up cs s))) = api_key (service s) \<and>
         max_calls (rate_limiter (service (snd (calls_at up cs s)))) =
           max_calls (rate_limiter (service s)) \<and>
         time_window (rate_limiter (service (snd (calls_at up cs s)))) =
           time_window (rate_limiter (service s))"
  using assms
proof (induction cs arbitrary: s)
  case Nil
  then show ?case by simp
next
  case (Cons c cs)
  obtain t u where c: "c = (t, u)" by (cases c)
  let ?init = "s\<lparr>clock := t\<rparr>"
  let ?nxt = "snd (get_ai_response up u (None :: py_turn list option) ''default'' (7 / 10) None ?init)"
  have step: "calls (rate_limiter (service ?nxt)) = calls (rate_limiter (service s)) @ [t] \<and>
         length (sent ?nxt) = Suc (length (sent s)) \<and>
         api_key (service ?nxt) = api_key (service s) \<and>
         max_calls (rate_limiter (service ?nxt)) = max_calls (rate_limiter (service s)) \<and>
         time_window (rate_limiter (service ?nxt)) = time_window (rate_limiter (service s))"
    using get_ai_response_admitted_step [of u ?init up "None :: py_turn list option" "''default''" "7 / 10" None]
      Cons.prems c
    by simp
  have run: "snd (calls_at up (c # cs) s) = snd (calls_at up cs ?nxt)"
    by (simp add: c split: prod.splits)
  have ih: "calls (rate_limiter (service (snd (calls_at up cs ?nxt)))) =
           calls (rate_limiter (service ?nxt)) @ map fst cs \<and>
         length (sent (snd (calls_at up cs ?nxt))) = length (sent ?nxt) + length cs \<and>
         api_key (service (snd (calls_at up cs ?nxt))) = api_key (service ?nxt) \<and>
         max_calls (rate_limiter (service (snd (calls_at up cs ?nxt)))) =
           max_calls (rate_limiter (service ?nxt)) \<and>
         time_window (rate_limiter (service (snd (calls_at up cs ?nxt)))) =
           time_window (rate_limiter (service ?nxt))"
  proof (rule Cons.IH)
    show "\<forall>u \<in> set (map snd cs). strip u \<noteq> []" using Cons.prems(1) by simp
    show "api_key (service ?nxt) \<noteq> []" using step Cons.prems(2) by simp
    show "\<forall>c \<in> set (calls (rate_limiter (service ?nxt))) \<union> set (map fst cs).
           \<forall>t \<in> set (map fst cs). t - c < of_int (time_window (rate_limiter (service ?nxt)))"
      using step Cons.prems(3) c by auto
    show "int (length (calls (rate_limiter (service ?nxt))) + length cs)
           \<le> max_calls (rate_limiter (service ?nxt))"
      using step Cons.prems(4) by simp
  qed
  show ?case
    unfolding run using ih step c by simp
qed

lemma calls_at_snoc:
  "calls_at up (cs @ [(t, u)]) s =
     (case calls_at up cs s of
        (rs, s') \<Rightarrow>
          (case get_ai_response up u (None :: py_turn list option) ''default'' (7 / 10) None
                  (s'\<lparr>clock := t\<rparr>) of
             (r, s'') \<Rightarrow> (rs @ [r], s'')))"
  by (induction cs arbitrary: s) (auto split: prod.splits)

lemma length_fst_calls_at: "length (fst (calls_at up cs s)) = length cs"
proof (induction cs arbitrary: s)
  case Nil
  then show ?case by simp
next
  case (Cons c cs)
  obtain t u where c: "c = (t, u)" by (cases c)
  show ?case
    by (simp add: c split: prod.splits) (metis Cons.IH fst_conv)
qed

lemma scenario_fifty_one:
  assumes len: "length cs = 61"
    and close: "\<forall>t \<in> set (map fst cs). \<forall>c \<in> set (map fst cs). t - c < 60"
    and valid: "\<forall>u \<in> set (map snd cs). strip u \<noteq> []"
    and key: "key \<noteq> []"
  shows "length (sent (snd (calls_at up (take 50 cs) (start_state key mdl t0)))) = 50 \<and>
         length (sent (snd (calls_at up (take 51 cs) (start_state key mdl t0)))) = 50 \<and>
         fst (calls_at up (take 51 cs) (start_state key mdl t0)) ! 50 =
           Inr (Some (degraded_response rate_limit_exceeded))"
proof -
  let ?init = "start_state key mdl t0"
  let ?cs = "take 50 cs"
  let ?mid = "snd (calls_at up ?cs ?init)"
  have sub: "set ?cs \<subseteq> set cs" by (rule set_take_subset)
  have len50: "length ?cs = 50" using len by simp
  have inv: "calls (rate_limiter (service ?mid)) = calls (rate_limiter (service ?init)) @ map fst ?cs \<and>
         length (sent ?mid) = length (sent ?init) + length ?cs \<and>
         api_key (service ?mid) = api_key (service ?init) \<and>
         max_calls (rate_limiter (service ?mid)) = max_calls (rate_limiter (service ?init)) \<and>
         time_window (rate_limiter (service ?mid)) = time_window (rate_limiter (service ?init))"
  proof (rule calls_at_all_admitted)
    show "\<forall>u \<in> set (map snd ?cs). strip u \<noteq> []" using valid sub by auto
    show "api_key (service ?init) \<noteq> []"
      using key by (simp add: start_state_def ZyeonAIService_def)
    show "\<forall>c \<in> set (calls (rate_limiter (service ?init))) \<union> set (map fst ?cs).
            \<forall>t \<in> set (map fst ?cs). t - c < of_int (time_window (rate_limiter (service ?init)))"
      using close sub by (auto simp: start_state_def ZyeonAIService_def RateLimiter_def)
    show "int (length (calls (rate_limiter (service ?init))) + length ?cs)
            \<le> max_calls (rate_limiter (service ?init))"
      using len50 by (simp add: start_state_def ZyeonAIService_def RateLimiter_def)
  qed
  then have log: "calls (rate_limiter (service ?mid)) = map fst ?cs"
    and sent50: "length (sent ?mid) = 50"
    and mc: "max_calls (rate_limiter (service ?mid)) = 50"
    and tw: "time_window (rate_limiter (service ?mid)) = 60"
    using len50 by (simp_all add: start_state_def ZyeonAIService_def RateLimiter_def)
  obtain t u where c: "cs ! 50 = (t, u)" by (cases "cs ! 50")
  have "cs ! 50 \<in> set cs" using len by simp
  then have t_in: "t \<in> set (map fst cs)"
    unfolding c by force
  let ?s = "?mid\<lparr>clock := t\<rparr>"
  have all_kept: "filter (\<lambda>c. t - c < 60) (map fst ?cs) = map fst ?cs"
    using close sub t_in by (auto simp: filter_id_conv)
  have rejected: "\<not> fst (can_make_call (clock ?s) (rate_limiter (service ?s)))"
    using log mc tw all_kept len50 by (simp add: can_make_call_def Let_def)
  have take51: "take 51 cs = ?cs @ [(t, u)]"
    using len c take_Suc_conv_app_nth [of 50 cs] by simp
  have run51: "calls_at up (take 51 cs) ?init =
                 (fst (calls_at up ?cs ?init) @ [Inr (Some (degraded_response rate_limit_exceeded))],
                  pruned ?s)"
  proof -
    obtain rs s50 where run50: "calls_at up ?cs ?init = (rs, s50)"
      by (cases "calls_at up ?cs ?init")
    then have s50: "?mid = s50" by simp
    have "get_ai_response up u (None :: py_turn list option) ''default'' (7 / 10) None
            (s50\<lparr>clock := t\<rparr>) =
          (Inr (Some (degraded_response rate_limit_exceeded)), pruned (s50\<lparr>clock := t\<rparr>))"
      using get_ai_response_rejected [OF rejected] unfolding s50 .
    then show ?thesis
      unfolding take51 calls_at_snoc run50 by simp
  qed
  have "length (fst (calls_at up ?cs ?init)) = 50"
    using len50 by (simp add: length_fst_calls_at)
  then have nth: "fst (calls_at up (take 51 cs) ?init) ! 50 =
                    Inr (Some (degraded_response rate_limit_exceeded))"
    unfolding run51 by (simp add: nth_append)
  have "length (sent (snd (calls_at up (take 51 cs) ?init))) = 50"
    unfolding run51 using sent50 by (simp add: pruned_frame)
  with sent50 nth show ?thesis by simp
qed

lemma half_seconds_facts:
  "length half_seconds = 61"
  "\<forall>t \<in> set (map fst half_seconds). \<forall>c \<in> set (map fst half_seconds). t - c < 60"
  "\<forall>u \<in> set (map snd half_seconds). strip u \<noteq> []"
  by (auto simp: half_seconds_def strip_Hello)

text \<open>
  The admission check comes first. When it rejects, the \<^verbatim>\<open>try\<close> block raises the
  rate-limit failure at once and the call returns the fallback reply for that failure: no
  request reaches the upstream, nothing is slept (no retry), and the log only loses
  entries. In every call, either no request is sent and no call is recorded, or the call was
  admitted and exactly one request is sent and exactly one call is recorded; and no call
  ever sleeps. With the constructor's limiter (50 calls per 60 seconds), 61 calls with
  non-blank input and any two of them less than 60 seconds apart: the upstream has received
  50 requests before call 51 and still 50 after it, and call 51 gets the fallback reply for
  the rate-limit failure.
\<close>

lemma admission_before_upstream:
  "(\<not> fst (can_make_call (clock s) (rate_limiter (service s))) \<longrightarrow>
      get_ai_response_try up ui h ct t mt s = (Inl rate_limit_exceeded, pruned s) \<and>
      get_ai_response up ui h ct t mt s =
        (Inr (Some (degraded_response rate_limit_exceeded)), pruned s) \<and>
      sent (pruned s) = sent s \<and> slept (pruned s) = slept s \<and>
      calls (rate_limiter (service (pruned s))) =
        in_window (rate_limiter (service s)) (clock s) (calls (rate_limiter (service s)))) \<and>
   ((sent (snd (get_ai_response up ui h ct t mt s)) = sent s \<and>
     calls (rate_limiter (service (snd (get_ai_response up ui h ct t mt s)))) =
       calls (rate_limiter (service (pruned s)))) \<or>
    (fst (can_make_call (clock s) (rate_limiter (service s))) \<and>
     (\<exists>req. sent (snd (get_ai_response up ui h ct t mt s)) = sent s @ [req]) \<and>
     calls (rate_limiter (service (snd (get_ai_response up ui h ct t mt s)))) =
       calls (rate_limiter (service (pruned s))) @ [clock s])) \<and>
   slept (snd (get_ai_response up ui h ct t mt s)) = slept s \<and>
   (length cs = 61 \<and> (\<forall>t \<in> set (map fst cs). \<forall>c \<in> set (map fst cs). t - c < 60) \<and>
    (\<forall>u \<in> set (map snd cs). strip u \<noteq> []) \<and> key \<noteq> [] \<longrightarrow>
      length (sent (snd (calls_at up (take 50 cs) (start_state key mdl t0)))) = 50 \<and>
      length (sent (snd (calls_at up (take 51 cs) (start_state key mdl t0)))) = 50 \<and>
      fst (calls_at up (take 51 cs) (start_state key mdl t0)) ! 50 =
        Inr (Some (degraded_response rate_limit_exceeded)))"
proof (intro conjI impI)
  assume rejected: "\<not> fst (can_make_call (clock s) (rate_limiter (service s)))"
  show "get_ai_response_try up ui h ct t mt s = (Inl rate_limit_exceeded, pruned s)"
    by (rule get_ai_response_try_rejected [OF rejected])
  show "get_ai_response up ui h ct t mt s =
          (Inr (Some (degraded_response rate_limit_exceeded)), pruned s)"
    by (rule get_ai_response_rejected [OF rejected])
next
  show "sent (pruned s) = sent s" "slept (pruned s) = slept s"
    "calls (rate_limiter (service (pruned s))) =
       in_window (rate_limiter (service s)) (clock s) (calls (rate_limiter (service s)))"
    by (rule pruned_frame)+
next
  show "(sent (snd (get_ai_response up ui h ct t mt s)) = sent s \<and>
     calls (rate_limiter (service (snd (get_ai_response up ui h ct t mt s)))) =
       calls (rate_limiter (service (pruned s)))) \<or>
    (fst (can_make_call (clock s) (rate_limiter (service s))) \<and>
     (\<exists>req. sent (snd (get_ai_response up ui h ct t mt s)) = sent s @ [req]) \<and>
     calls (rate_limiter (service (snd (get_ai_response up ui h ct t mt s)))) =
       calls (rate_limiter (service (pruned s))) @ [clock s])"
    unfolding snd_get_ai_response by (rule get_ai_response_try_effects)
next
  show "slept (snd (get_ai_response up ui h ct t mt s)) = slept s"
    by (rule slept_get_ai_response)
next
  assume hyp: "length cs = 61 \<and> (\<forall>t \<in> set (map fst cs). \<forall>c \<in> set (map fst cs). t - c < 60) \<and>
    (\<forall>u \<in> set (map snd cs). strip u \<noteq> []) \<and> key \<noteq> []"
  then have "length (sent (snd (calls_at up (take 50 cs) (start_state key mdl t0)))) = 50 \<and>
      length (sent (snd (calls_at up (take 51 cs) (start_state key mdl t0)))) = 50 \<and>
      fst (calls_at up (take 51 cs) (start_state key mdl t0)) ! 50 =
        Inr (Some (degraded_response rate_limit_exceeded))"
    by (intro scenario_fifty_one) simp_all
  then show "length (sent (snd (calls_at up (take 50 cs) (start_state key mdl t0)))) = 50"
    "length (sent (snd (calls_at up (take 51 cs) (start_state key mdl t0)))) = 50"
    "fst (calls_at up (take 51 cs) (start_state key mdl t0)) ! 50 =
        Inr (Some (degraded_response rate_limit_exceeded))"
    by simp_all
qed

lemma slept_calls_at: "slept (snd (calls_at up cs s)) = slept s"
proof (induction cs arbitrary: s)
  case Nil
  then show ?case by simp
next
  case (Cons c cs)
  obtain t u where c: "c = (t, u)" by (cases c)
  obtain r s' where step: "get_ai_response up u (None :: py_turn list option) ''default'' (7 / 10)
      None (s\<lparr>clock := t\<rparr>) = (r, s')"
    by (cases "get_ai_response up u (None :: py_turn list option) ''default'' (7 / 10) None
          (s\<lparr>clock := t\<rparr>)")
  obtain rs s'' where rest: "calls_at up cs s' = (rs, s'')"
    by (cases "calls_at up cs s'")
  have "slept s' = slept (s\<lparr>clock := t\<rparr>)"
    using slept_get_ai_response [of up u "None :: py_turn list option" "''default''" "7 / 10" None
        "s\<lparr>clock := t\<rparr>"] step by simp
  moreover have "slept s'' = slept s'"
    using Cons.IH [of s'] rest by simp
  ultimately show ?case
    by (simp add: c step rest)
qed

lemma degraded_blank_input:
  "degraded_response (ValueError ''User input cannot be empty'') =
     (''I apologize, but I'm experiencing technical difficulties. Please try again.'', [])"
  by (simp add: degraded_response_def lower_def lower_char_def)

lemma blank_input_reply:
  "fst (get_ai_response always_answers [] (None :: py_turn list option) ''default'' (7 / 10) None
          fresh_state) =
     Inr (Some (''I apologize, but I'm experiencing technical difficulties. Please try again.'', []))"
  by (simp add: get_ai_response_eq get_ai_response_try_def fresh_state_def ZyeonAIService_def
      RateLimiter_def can_make_call_def Let_def degraded_blank_input)

lemma upstream_rate_limited_reply:
  "fst (get_ai_response upstream_rate_limited ''Hello'' (None :: py_turn list option) ''default''
          (7 / 10) None fresh_state) =
     Inr (Some (''I'm experiencing high demand right now. Please try again in a moment.'', []))"
  by (simp add: get_ai_response_eq get_ai_response_try_def fresh_state_def ZyeonAIService_def
      RateLimiter_def can_make_call_def Let_def strip_Hello upstream_rate_limited_def
      degraded_upstream_rate_limit)

text \<open>
  C5. The claim asks that a call the limiter rejects fails at once with a rate-limit
  outcome. On the constructor's limiter (50 calls per 60 seconds) and 61 calls of
  \<^verbatim>\<open>Hello\<close> half a second apart, call 51 is indeed rejected before the upstream is invoked:
  the upstream has received 50 requests before the call and 50 after it, and nothing is
  slept. But what the call returns is the generic apology with empty metadata, the very
  reply a blank input gets, and not the rate-limit reply, which the code does give when the
  upstream turns a request down with its rate-limit error.
\<close>

theorem call_fifty_one_outcome:
  "fst (calls_at always_answers (take 51 half_seconds)
          (start_state ''sk-test'' ''gpt-3.5-turbo'' 0)) ! 50 =
     Inr (Some (''I apologize, but I'm experiencing technical difficulties. Please try again.'', [])) \<and>
   length (sent (snd (calls_at always_answers (take 50 half_seconds)
                        (start_state ''sk-test'' ''gpt-3.5-turbo'' 0)))) = 50 \<and>
   length (sent (snd (calls_at always_answers (take 51 half_seconds)
                        (start_state ''sk-test'' ''gpt-3.5-turbo'' 0)))) = 50 \<and>
   slept (snd (calls_at always_answers (take 51 half_seconds)
                 (start_state ''sk-test'' ''gpt-3.5-turbo'' 0))) = [] \<and>
   fst (get_ai_response always_answers [] (None :: py_turn list option) ''default'' (7 / 10) None
          fresh_state) =
     Inr (Some (''I apologize, but I'm experiencing technical difficulties. Please try again.'', [])) \<and>
   fst (get_ai_response upstream_rate_limited ''Hello'' (None :: py_turn list option) ''default''
          (7 / 10) None fresh_state) =
     Inr (Some (''I'm experiencing high demand right now. Please try again in a moment.'', []))"
proof -
  have key: "''sk-test'' \<noteq> []" by simp
  have run: "length (sent (snd (calls_at always_answers (take 50 half_seconds)
                        (start_state ''sk-test'' ''gpt-3.5-turbo'' 0)))) = 50 \<and>
      length (sent (snd (calls_at always_answers (take 51 half_seconds)
                        (start_state ''sk-test'' ''gpt-3.5-turbo'' 0)))) = 50 \<and>
      fst (calls_at always_answers (take 51 half_seconds)
             (start_state ''sk-test'' ''gpt-3.5-turbo'' 0)) ! 50 =
        Inr (Some (degraded_response rate_limit_exceeded))"
    by (rule scenario_fifty_one [OF half_seconds_facts key])
  have quiet: "slept (snd (calls_at always_answers (take 51 half_seconds)
                 (start_state ''sk-test'' ''gpt-3.5-turbo'' 0))) = []"
    by (simp add: slept_calls_at start_state_def)
  from run quiet blank_input_reply upstream_rate_limited_reply show ?thesis
    by (simp add: degraded_rate_limit_exceeded)
qed

subsection \<open>The context window\<close>

lemma add_history_append:
  "add_history messages h = messages @ concat (map turn_messages h)"
  by (induction h arbitrary: messages) (simp_all add: turn_messages_def split: option.splits)

lemma prepare_conversation_context_eq:
  "prepare_conversation_context svc h ct =
     \<lparr>role = ''system'', content = get_system_prompt svc ct\<rparr> #
     concat (map turn_messages (slice_from (- max_context_messages svc) h))"
  by (simp add: prepare_conversation_context_def Let_def add_history_append)

lemma slice_from_last:
  "0 < n \<Longrightarrow> slice_from (- n) xs = drop (length xs - nat n) xs"
  by (simp add: slice_from_def nat_diff_distrib')

text \<open>
  What the service does with any list: with a positive \<^verbatim>\<open>max_context_messages\<close> and entries
  that all have both keys, the prompt is the system prompt and then the last
  \<^verbatim>\<open>max_context_messages\<close> entries of the list, in the order of the list.
\<close>

lemma prepare_context_in_list_order:
  assumes "0 < max_context_messages svc"
    and "\<forall>t \<in> set h. user_message t \<noteq> None \<and> ai_response t \<noteq> None"
  shows "prepare_conversation_context svc h ct =
     \<lparr>role = ''system'', content = get_system_prompt svc ct\<rparr> #
     concat (map (\<lambda>t. [\<lparr>role = ''user'', content = the (user_message t)\<rparr>,
                        \<lparr>role = ''assistant'', content = the (ai_response t)\<rparr>])
               (drop (length h - nat (max_context_messages svc)) h))"
proof -
  have one: "turn_messages t =
        [\<lparr>role = ''user'', content = the (user_message t)\<rparr>,
         \<lparr>role = ''assistant'', content = the (ai_response t)\<rparr>]"
    if "t \<in> set h" for t
  proof -
    from that assms(2) obtain u a where "user_message t = Some u" "ai_response t = Some a"
      by auto
    then show ?thesis by (simp add: turn_messages_def)
  qed
  have "map turn_messages (drop n h) =
        map (\<lambda>t. [\<lparr>role = ''user'', content = the (user_message t)\<rparr>,
                   \<lparr>role = ''assistant'', content = the (ai_response t)\<rparr>]) (drop n h)" for n
    by (rule map_cong [OF refl]) (use one in \<open>auto dest: in_set_dropD\<close>)
  then show ?thesis
    unfolding prepare_conversation_context_eq slice_from_last [OF assms(1)] by (simp only:)
qed

subsection \<open>Conversations\<close>

lemma create_conversation_available:
  assumes "available cm"
  shows "create_conversation now um ar uid cid sid mty md cm =
     Inr (str_nat (inserted cm),
          cm\<lparr>conversations := conversations cm @
               [\<lparr>user_message = Some um, ai_response = Some ar,
                 conversation_id = (if truthy cid then the cid else ''conv_'' @ str_int (py_int now)),
                 conversation.user_id = uid, conversation.session_id = sid, timestamp = ms now,
                 message_type = mty,
                 conversation.metadata = (case md of None \<Rightarrow> [] | Some m \<Rightarrow> m),
                 conversation.created_at = ms now, conversation.updated_at = ms now\<rparr>],
             inserted := Suc (inserted cm)\<rparr>)"
  using assms by (simp add: create_conversation_def Let_def)

text \<open>
  C10. When the store answers and no conversation id is supplied (\<^verbatim>\<open>None\<close>, or the empty
  string), the stored turn gets the id \<^verbatim>\<open>conv_\<close> followed by the decimal text of the clock
  reading cut to whole seconds. Two such turns written at readings that cut to the same
  second get the same id, and both match a query for that conversation id.
\<close>

theorem generated_conversation_id:
  "(available cm \<and> \<not> truthy cid \<longrightarrow>
      (case create_conversation now um ar uid cid sid mty md cm of
         Inl e \<Rightarrow> False
       | Inr (oid, cm') \<Rightarrow>
           take (length (conversations cm)) (conversations cm') = conversations cm \<and>
           map conversation_id (drop (length (conversations cm)) (conversations cm')) =
             [''conv_'' @ str_int (py_int now)])) \<and>
   (available cm \<and> \<not> truthy cid \<and> \<not> truthy cid' \<and> py_int now = py_int now' \<longrightarrow>
      (let ds = conversations
                  (model_run cm [CreateConversation now um ar uid cid sid mty md,
                                 CreateConversation now' um' ar' uid' cid' sid' mty' md']);
           new = drop (length (conversations cm)) ds
       in take (length (conversations cm)) ds = conversations cm \<and>
          map user_message new = [Some um, Some um'] \<and>
          map conversation_id new =
            [''conv_'' @ str_int (py_int now), ''conv_'' @ str_int (py_int now)] \<and>
          filter (matches None (Some (''conv_'' @ str_int (py_int now))) None) new = new))"
proof (intro conjI impI)
  assume "available cm \<and> \<not> truthy cid"
  then show "case create_conversation now um ar uid cid sid mty md cm of
         Inl e \<Rightarrow> False
       | Inr (oid, cm') \<Rightarrow>
           take (length (conversations cm)) (conversations cm') = conversations cm \<and>
           map conversation_id (drop (length (conversations cm)) (conversations cm')) =
             [''conv_'' @ str_int (py_int now)]"
    by (simp add: create_conversation_available)
next
  assume same_second: "available cm \<and> \<not> truthy cid \<and> \<not> truthy cid' \<and> py_int now = py_int now'"
  let ?first = "model_step cm (CreateConversation now um ar uid cid sid mty md)"
  have first: "available ?first"
    "conversations ?first = conversations cm @
       [\<lparr>user_message = Some um, ai_response = Some ar,
         conversation_id = ''conv_'' @ str_int (py_int now),
         conversation.user_id = uid, conversation.session_id = sid, timestamp = ms now,
         message_type = mty,
         conversation.metadata = (case md of None \<Rightarrow> [] | Some m \<Rightarrow> m),
         conversation.created_at = ms now, conversation.updated_at = ms now\<rparr>]"
    using same_second by (simp_all add: create_conversation_available)
  have second: "conversations (model_step ?first
                  (CreateConversation now' um' ar' uid' cid' sid' mty' md')) =
     conversations ?first @
       [\<lparr>user_message = Some um', ai_response = Some ar',
         conversation_id = ''conv_'' @ str_int (py_int now),
         conversation.user_id = uid', conversation.session_id = sid', timestamp = ms now',
         message_type = mty',
         conversation.metadata = (case md' of None \<Rightarrow> [] | Some m \<Rightarrow> m),
         conversation.created_at = ms now', conversation.updated_at = ms now'\<rparr>]"
    using same_second first(1) by (simp add: create_conversation_available)
  show "let ds = conversations
                  (model_run cm [CreateConversation now um ar uid cid sid mty md,
                                 CreateConversation now' um' ar' uid' cid' sid' mty' md']);
           new = drop (length (conversations cm)) ds
       in take (length (conversations cm)) ds = conversations cm \<and>
          map user_message new = [Some um, Some um'] \<and>
          map conversation_id new =
            [''conv_'' @ str_int (py_int now), ''conv_'' @ str_int (py_int now)] \<and>
          filter (matches None (Some (''conv_'' @ str_int (py_int now))) None) new = new"
    unfolding model_run.simps second first(2)
    by (simp add: Let_def matches_def truthy_def)
qed

theorem generated_conversation_id_witness:
  "map conversation_id
     (conversations
        (model_run ConversationModel
           [CreateConversation (1700000000 + 1 / 4) ''Hi'' ''Hello'' ''anonymous'' None None
              ''text'' None,
            CreateConversation (1700000000 + 3 / 4) ''Bye'' ''Goodbye'' ''anonymous'' None None
              ''text'' None])) = [''conv_1700000000'', ''conv_1700000000'']"
  using generated_conversation_id [where cm = ConversationModel and cid = None and cid' = None
      and now = "1700000000 + 1 / 4" and now' = "1700000000 + 3 / 4" and um = "''Hi''"
      and ar = "''Hello''" and uid = "''anonymous''" and sid = None and mty = "''text''"
      and md = None and um' = "''Bye''" and ar' = "''Goodbye''" and uid' = "''anonymous''"
      and sid' = None and mty' = "''text''" and md' = None]
  by (simp add: py_int_def str_int_def str_nat.simps digit_def ConversationModel_def truthy_def
      Let_def del: model_run.simps)

lemma ms_of_nat: "ms (real n) = real n"
proof -
  have "real n * 1000 = of_int (int (n * 1000))" by simp
  then have "\<lfloor>real n * 1000\<rfloor> = int (n * 1000)" by (simp only: floor_of_int)
  then show ?thesis by (simp add: ms_def)
qed

lemma matching_positions:
  "map snd (filter (\<lambda>p. P (snd p)) (enumerate n ds)) = filter P ds"
  by (induction ds arbitrary: n) simp_all

lemma mset_newest_first: "mset (newest_first rank ids) = mset (map snd ids)"
  by (simp add: newest_first_def)

lemma newest_first_sorted:
  "sorted_wrt (\<lambda>a b. timestamp b \<le> timestamp a) (newest_first rank ids)"
proof -
  have "sorted (map (\<lambda>p. - timestamp (snd p))
          (sort_key (\<lambda>p. - timestamp (snd p)) (sort_key (\<lambda>p. rank (fst p)) ids)))"
    by (rule sorted_sort_key)
  then show ?thesis by (simp add: newest_first_def sorted_wrt_map)
qed

lemma sorted_wrt_cursor_limit: "sorted_wrt R xs \<Longrightarrow> sorted_wrt R (cursor_limit batch n xs)"
  by (simp add: cursor_limit_def sorted_wrt_take)

lemma history_available:
  assumes "available cm" and "0 \<le> offset" and "offset < 2 ^ 63" and "\<bar>limit\<bar> < 2 ^ 63"
  shows "get_conversation_history cm u c s limit offset =
     map isoformat_conversation
       (cursor_limit (first_batch cm) limit (drop (nat offset)
          (newest_first (tie_rank cm)
             (filter (\<lambda>p. matches u c s (snd p)) (enumerate 0 (conversations cm))))))"
  using assms by (simp add: get_conversation_history_def get_conversation_history_try_def)

lemma history_unavailable:
  "\<not> available cm \<or> offset < 0 \<or> 2 ^ 63 \<le> offset \<or> 2 ^ 63 \<le> \<bar>limit\<bar> \<Longrightarrow>
   get_conversation_history cm u c s limit offset = []"
  by (auto simp: get_conversation_history_def get_conversation_history_try_def)

lemma history_sorted:
  "sorted_wrt (\<lambda>a b. instant (timestamp b) \<le> instant (timestamp a))
     (get_conversation_history cm u c s limit offset)"
proof (cases "available cm \<and> 0 \<le> offset \<and> offset < 2 ^ 63 \<and> \<bar>limit\<bar> < 2 ^ 63")
  case True
  have "sorted_wrt (\<lambda>a b. timestamp b \<le> timestamp a)
          (cursor_limit (first_batch cm) limit (drop (nat offset)
             (newest_first (tie_rank cm)
                (filter (\<lambda>p. matches u c s (snd p)) (enumerate 0 (conversations cm))))))"
    by (intro sorted_wrt_cursor_limit sorted_wrt_drop newest_first_sorted)
  then show ?thesis
    using True by (simp add: history_available sorted_wrt_map isoformat_conversation_def)
next
  case False
  then have "get_conversation_history cm u c s limit offset = []"
    by (intro history_unavailable) auto
  then show ?thesis by simp
qed

lemma history_complete:
  assumes "available cm"
  shows "mset (get_conversation_history cm u c s 0 0) =
         mset (map isoformat_conversation (filter (matches u c s) (conversations cm)))"
proof -
  have "mset (newest_first (tie_rank cm)
                (filter (\<lambda>p. matches u c s (snd p)) (enumerate 0 (conversations cm)))) =
        mset (filter (matches u c s) (conversations cm))"
    by (simp only: mset_newest_first matching_positions)
  then have "mset (map isoformat_conversation (newest_first (tie_rank cm)
                (filter (\<lambda>p. matches u c s (snd p)) (enumerate 0 (conversations cm))))) =
        mset (map isoformat_conversation (filter (matches u c s) (conversations cm)))"
    by (simp only: mset_map)
  then show ?thesis
    using assms by (simp add: history_available cursor_limit_def)
qed

lemma history_no_match:
  assumes "filter (matches u c s) (conversations cm) = []"
  shows "get_conversation_history cm u c s limit offset = []"
proof (cases "available cm \<and> 0 \<le> offset \<and> offset < 2 ^ 63 \<and> \<bar>limit\<bar> < 2 ^ 63")
  case True
  have "map snd (filter (\<lambda>p. matches u c s (snd p)) (enumerate 0 (conversations cm))) = []"
    using assms by (simp only: matching_positions)
  then have "filter (\<lambda>p. matches u c s (snd p)) (enumerate 0 (conversations cm)) = []"
    by simp
  then show ?thesis
    using True by (simp add: history_available newest_first_def cursor_limit_def)
next
  case False
  then show ?thesis by (intro history_unavailable) auto
qed

lemma history_page:
  assumes "available cm" and "0 \<le> offset" and "offset < 2 ^ 63" and "\<bar>limit\<bar> < 2 ^ 63"
  shows "get_conversation_history cm u c s limit offset =
     (if limit = 0 then drop (nat offset) (get_conversation_history cm u c s 0 0)
      else if 0 < limit
        then take (nat limit) (drop (nat offset) (get_conversation_history cm u c s 0 0))
      else take (min (nat (- limit)) (first_batch cm))
             (drop (nat offset) (get_conversation_history cm u c s 0 0)))"
proof -
  have whole: "get_conversation_history cm u c s 0 0 =
     map isoformat_conversation
       (newest_first (tie_rank cm)
          (filter (\<lambda>p. matches u c s (snd p)) (enumerate 0 (conversations cm))))"
    using assms(1) by (simp add: history_available cursor_limit_def)
  show ?thesis
    unfolding whole using assms
    by (simp add: history_available cursor_limit_def drop_map take_map)
qed

lemma three_turns_conversations:
  "map user_message (conversations three_turns) = [Some ''first'', Some ''second'', Some ''third'']"
  "map timestamp (conversations three_turns) = [10, 20, 30]"
  "available three_turns"
  by (simp_all add: three_turns_def ConversationModel_def create_conversation_def Let_def
      truthy_def ms_def)

lemma three_turns_listing:
  "map user_message (get_conversation_history three_turns (Some ''user_1'') None None 0 0) =
     [Some ''third'', Some ''second'', Some ''first'']"
  by (simp add: get_conversation_history_def get_conversation_history_try_def three_turns_def
      ConversationModel_def create_conversation_def Let_def truthy_def ms_def matches_def
      newest_first_def cursor_limit_def isoformat_conversation_def enumerate_eq_zip
      upt_rec_numeral)

text \<open>
  C8 (as amended). \<^verbatim>\<open>get_conversation_history\<close> returns a list in every case. The list is
  empty when the store does not answer, when the query fails (a negative offset, or an
  offset or a limit that does not fit into eight bytes) and when no document matches.
  Whatever it returns is ordered newest first. With a store that answers, the call without
  limit and offset lists every matching document once; with an offset and a limit that the
  query accepts, a call is that listing without its first \<^verbatim>\<open>offset\<close> documents, cut to the
  first \<^verbatim>\<open>limit\<close> of them when the limit is positive, not cut at all when the limit is 0, and
  cut to the first \<^verbatim>\<open>-limit\<close> or to the server's first batch, whichever is shorter, when the
  limit is negative.
\<close>

theorem get_conversation_history_pages:
  "(\<not> available cm \<longrightarrow> get_conversation_history cm u c s limit offset = []) \<and>
   (offset < 0 \<longrightarrow> get_conversation_history cm u c s limit offset = []) \<and>
   (2 ^ 63 \<le> offset \<longrightarrow> get_conversation_history cm u c s limit offset = []) \<and>
   (2 ^ 63 \<le> \<bar>limit\<bar> \<longrightarrow> get_conversation_history cm u c s limit offset = []) \<and>
   (filter (matches u c s) (conversations cm) = [] \<longrightarrow>
      get_conversation_history cm u c s limit offset = []) \<and>
   sorted_wrt (\<lambda>a b. instant (timestamp b) \<le> instant (timestamp a))
     (get_conversation_history cm u c s limit offset) \<and>
   (available cm \<longrightarrow>
      mset (get_conversation_history cm u c s 0 0) =
        mset (map isoformat_conversation (filter (matches u c s) (conversations cm)))) \<and>
   (available cm \<and> 0 \<le> offset \<and> offset < 2 ^ 63 \<and> \<bar>limit\<bar> < 2 ^ 63 \<longrightarrow>
      get_conversation_history cm u c s limit offset =
        (if limit = 0 then drop (nat offset) (get_conversation_history cm u c s 0 0)
         else if 0 < limit
           then take (nat limit) (drop (nat offset) (get_conversation_history cm u c s 0 0))
         else take (min (nat (- limit)) (first_batch cm))
                (drop (nat offset) (get_conversation_history cm u c s 0 0))))"
proof (intro conjI impI)
  show "get_conversation_history cm u c s limit offset = []" if "\<not> available cm"
    using that by (intro history_unavailable) simp
  show "get_conversation_history cm u c s limit offset = []" if "offset < 0"
    using that by (intro history_unavailable) simp
  show "get_conversation_history cm u c s limit offset = []" if "2 ^ 63 \<le> offset"
    using that by (intro history_unavailable) simp
  show "get_conversation_history cm u c s limit offset = []" if "2 ^ 63 \<le> \<bar>limit\<bar>"
    using that by (intro history_unavailable) simp
  show "get_conversation_history cm u c s limit offset = []"
    if "filter (matches u c s) (conversations cm) = []"
    using that by (rule history_no_match)
  show "sorted_wrt (\<lambda>a b. instant (timestamp b) \<le> instant (timestamp a))
     (get_conversation_history cm u c s limit offset)"
    by (rule history_sorted)
  show "mset (get_conversation_history cm u c s 0 0) =
        mset (map isoformat_conversation (filter (matches u c s) (conversations cm)))"
    if "available cm"
    using that by (rule history_complete)
  show "get_conversation_history cm u c s limit offset =
        (if limit = 0 then drop (nat offset) (get_conversation_history cm u c s 0 0)
         else if 0 < limit
           then take (nat limit) (drop (nat offset) (get_conversation_history cm u c s 0 0))
         else take (min (nat (- limit)) (first_batch cm))
                (drop (nat offset) (get_conversation_history cm u c s 0 0)))"
    if "available cm \<and> 0 \<le> offset \<and> offset < 2 ^ 63 \<and> \<bar>limit\<bar> < 2 ^ 63"
    using that by (intro history_page) simp_all
qed

theorem get_conversation_history_pages_witness:
  "get_conversation_history (three_turns\<lparr>available := False\<rparr>) (Some ''user_1'') None None 50 0 = [] \<and>
   get_conversation_history three_turns (Some ''user_1'') None None 50 (- 1) = [] \<and>
   get_conversation_history three_turns (Some ''user_1'') None None 50 (2 ^ 63) = [] \<and>
   get_conversation_history three_turns (Some ''user_1'') None None (- (2 ^ 63)) 0 = [] \<and>
   get_conversation_history three_turns (Some ''nobody'') None None 50 0 = [] \<and>
   map user_message (get_conversation_history three_turns (Some ''user_1'') None None 0 0) =
     [Some ''third'', Some ''second'', Some ''first''] \<and>
   map user_message (get_conversation_history three_turns (Some ''user_1'') None None 2 1) =
     [Some ''second'', Some ''first''] \<and>
   map user_message
     (get_conversation_history (three_turns\<lparr>first_batch := 1\<rparr>) (Some ''user_1'') None None (- 2)
        1) =
     [Some ''second'']"
proof -
  have down: "\<not> available (three_turns\<lparr>available := False\<rparr>)" by simp
  have nobody: "filter (matches (Some ''nobody'') None None) (conversations three_turns) = []"
    by (simp add: three_turns_def ConversationModel_def create_conversation_def Let_def
        truthy_def matches_def)
  have page: "available three_turns \<and> (0::int) \<le> 1 \<and> (1::int) < 2 ^ 63 \<and> \<bar>2::int\<bar> < 2 ^ 63"
    by (simp add: three_turns_conversations)
  have page': "available (three_turns\<lparr>first_batch := 1\<rparr>) \<and> (0::int) \<le> 1 \<and> (1::int) < 2 ^ 63 \<and>
      \<bar>- 2::int\<bar> < 2 ^ 63"
    by (simp add: three_turns_conversations)
  have listing': "get_conversation_history (three_turns\<lparr>first_batch := 1\<rparr>) (Some ''user_1'') None
      None 0 0 = get_conversation_history three_turns (Some ''user_1'') None None 0 0"
    by (simp add: get_conversation_history_def get_conversation_history_try_def cursor_limit_def)
  have "get_conversation_history three_turns (Some ''user_1'') None None 2 1 =
        take (nat 2) (drop (nat 1)
          (get_conversation_history three_turns (Some ''user_1'') None None 0 0))"
    using get_conversation_history_pages [of three_turns "Some ''user_1''" None None 2 1] page
    by simp
  then have second: "map user_message
          (get_conversation_history three_turns (Some ''user_1'') None None 2 1) =
        [Some ''second'', Some ''first'']"
    using three_turns_listing by (simp add: take_map [symmetric] drop_map [symmetric])
  have "get_conversation_history (three_turns\<lparr>first_batch := 1\<rparr>) (Some ''user_1'') None None
          (- 2) 1 =
        take (min (nat (- (- 2))) 1) (drop (nat 1)
          (get_conversation_history three_turns (Some ''user_1'') None None 0 0))"
    using get_conversation_history_pages
        [of "three_turns\<lparr>first_batch := 1\<rparr>" "Some ''user_1''" None None "- 2" 1] page' listing'
    by simp
  then have batch: "map user_message
          (get_conversation_history (three_turns\<lparr>first_batch := 1\<rparr>) (Some ''user_1'') None None
             (- 2) 1) =
        [Some ''second'']"
    using three_turns_listing by (simp add: take_map [symmetric] drop_map [symmetric])
  show ?thesis
    using get_conversation_history_pages
        [of "three_turns\<lparr>available := False\<rparr>" "Some ''user_1''" None None 50 0]
      get_conversation_history_pages [of three_turns "Some ''user_1''" None None 50 "- 1"]
      get_conversation_history_pages [of three_turns "Some ''user_1''" None None 50 "2 ^ 63"]
      get_conversation_history_pages [of three_turns "Some ''user_1''" None None "- (2 ^ 63)" 0]
      get_conversation_history_pages [of three_turns "Some ''nobody''" None None 50 0]
      down nobody second batch three_turns_listing
    by simp
qed

text \<open>
  C8 as stated fails: the result is not always a page of \<^verbatim>\<open>limit\<close> documents. From a store
  with three turns, a limit of 0 returns all three and a limit of -2 returns two.
\<close>

theorem limit_zero_returns_everything:
  "map user_message (get_conversation_history three_turns (Some ''user_1'') None None 0 0) =
     [Some ''third'', Some ''second'', Some ''first''] \<and>
   map user_message (get_conversation_history three_turns (Some ''user_1'') None None (- 2) 0) =
     [Some ''third'', Some ''second'']"
  by (simp add: get_conversation_history_def get_conversation_history_try_def three_turns_def
      ConversationModel_def create_conversation_def Let_def truthy_def ms_def matches_def
      newest_first_def cursor_limit_def isoformat_conversation_def enumerate_eq_zip
      upt_rec_numeral)

subsection \<open>The prompt built from a stored history\<close>

lemma insort_key_last:
  "\<forall>y \<in> set ys. f y < f x \<Longrightarrow> insort_key f x ys = ys @ [x]"
  by (induction ys) auto

lemma sort_key_descending:
  fixes g :: "'a \<Rightarrow> real"
  shows "sorted_wrt (<) (map g xs) \<Longrightarrow> sort_key (\<lambda>x. - g x) xs = rev xs"
proof (induction xs)
  case Nil
  then show ?case by simp
next
  case (Cons x xs)
  then have ih: "sort_key (\<lambda>x. - g x) xs = rev xs"
    and later: "\<forall>y \<in> set xs. g x < g y"
    by simp_all
  have "insort_key (\<lambda>x. - g x) x (rev xs) = rev xs @ [x]"
    by (rule insort_key_last) (use later in simp)
  then show ?case
    by (simp add: ih)
qed

lemma newest_first_rev:
  assumes "sorted_wrt (<) (map timestamp ds)"
  shows "newest_first (\<lambda>i. 0) (enumerate n ds) = rev ds"
proof -
  have "map (\<lambda>p. timestamp (snd p)) (enumerate n ds) = map timestamp ds"
    by (simp add: map_snd_enumerate flip: map_map [unfolded comp_def])
  with assms have "sorted_wrt (<) (map (\<lambda>p. timestamp (snd p)) (enumerate n ds))"
    by simp
  then have "sort_key (\<lambda>p. - timestamp (snd p)) (enumerate n ds) = rev (enumerate n ds)"
    by (rule sort_key_descending)
  then show ?thesis
    by (simp add: newest_first_def sort_key_const rev_map [symmetric] map_snd_enumerate)
qed

lemma run_turn_numbers:
  "available cm \<Longrightarrow>
   conversations (model_run cm (map turn_number ns)) = conversations cm @ map turn_doc ns \<and>
   available (model_run cm (map turn_number ns)) \<and>
   tie_rank (model_run cm (map turn_number ns)) = tie_rank cm"
proof (induction ns arbitrary: cm)
  case Nil
  then show ?case by simp
next
  case (Cons n ns)
  let ?mid = "model_step cm (turn_number n)"
  have mid: "conversations ?mid = conversations cm @ [turn_doc n]" "available ?mid"
    "tie_rank ?mid = tie_rank cm"
    using Cons.prems
    by (simp_all add: turn_number_def turn_doc_def create_conversation_def Let_def truthy_def
        ms_of_nat)
  from Cons.IH [OF mid(2)] mid(1,3) show ?case by simp
qed

lemma thirty_turns_conversations:
  "conversations thirty_turns = map turn_doc [1..<31]" "available thirty_turns"
  "tie_rank thirty_turns = (\<lambda>i. 0)"
  using run_turn_numbers [of ConversationModel "[1..<31]"]
  by (simp_all add: thirty_turns_def ConversationModel_def del: One_nat_def)

lemma thirty_turns_history:
  "get_conversation_history thirty_turns (Some ''user_1'') None None 50 0 =
     map (\<lambda>i. isoformat_conversation (turn_doc i)) (rev [1..<31])"
proof -
  have "matches (Some ''user_1'') None None (snd p)"
    if "p \<in> set (enumerate 0 (map turn_doc [1..<31]))" for p
  proof -
    from that have "snd p \<in> set (map turn_doc [1..<31])"
      unfolding enumerate_eq_zip by (metis set_zip_rightD prod.collapse)
    then show ?thesis
      by (auto simp: matches_def truthy_def turn_doc_def)
  qed
  then have all: "filter (\<lambda>p. matches (Some ''user_1'') None None (snd p))
               (enumerate 0 (map turn_doc [1..<31])) = enumerate 0 (map turn_doc [1..<31])"
    by (simp add: filter_id_conv)
  have ts: "map timestamp (map turn_doc [1..<31]) = map real [1..<31]"
    by (simp add: turn_doc_def comp_def)
  have "sorted_wrt (<) (map timestamp (map turn_doc [1..<31]))"
    unfolding ts by (simp add: sorted_wrt_map)
  then have "newest_first (\<lambda>i. 0) (enumerate 0 (map turn_doc [1..<31])) =
             rev (map turn_doc [1..<31])"
    by (rule newest_first_rev)
  then show ?thesis
    by (simp add: history_available thirty_turns_conversations all cursor_limit_def rev_map
        comp_def del: One_nat_def)
qed

lemma thirty_turns_window:
  "slice_from (- 20) (map (\<lambda>i. isoformat_conversation (turn_doc i)) (rev [1..<31])) =
     map (\<lambda>i. isoformat_conversation (turn_doc i)) (rev [1..<21])"
  by (simp add: slice_from_def drop_map drop_rev del: One_nat_def)

lemma turn_messages_turn_doc:
  "turn_messages (isoformat_conversation (turn_doc i)) =
     [\<lparr>role = ''user'', content = ''question '' @ str_nat i\<rparr>,
      \<lparr>role = ''assistant'', content = ''answer '' @ str_nat i\<rparr>]"
  by (simp add: turn_messages_def isoformat_conversation_def turn_doc_def)

lemma rev_upt_21: "rev [1..<21] = 20 # rev [1..<20]"
proof -
  have "[1..<Suc 20] = [1..<20] @ [20]" by (rule upt_Suc_append) simp
  then have "[1..<21] = [1..<20] @ [20]" by (simp del: upt_Suc One_nat_def)
  then show ?thesis by (simp del: upt_Suc One_nat_def)
qed

lemma upt_11_31: "[11..<31] = 11 # [12..<31]"
  by (simp add: upt_rec_numeral del: upt_Suc)

lemma str_nat_20: "str_nat 20 = ''20''" "str_nat 11 = ''11''"
  by (simp_all add: str_nat.simps digit_def)

lemma prompts_differ:
  "\<lparr>role = ''system'', content = default_prompt\<rparr> #
    concat (map (\<lambda>i. [\<lparr>role = ''user'', content = ''question '' @ str_nat i\<rparr>,
                       \<lparr>role = ''assistant'', content = ''answer '' @ str_nat i\<rparr>])
              (rev [1..<21])) @
    [\<lparr>role = ''user'', content = ''Hello''\<rparr>] \<noteq>
   \<lparr>role = ''system'', content = default_prompt\<rparr> #
    concat (map (\<lambda>i. [\<lparr>role = ''user'', content = ''question '' @ str_nat i\<rparr>,
                       \<lparr>role = ''assistant'', content = ''answer '' @ str_nat i\<rparr>])
              [11..<31]) @
    [\<lparr>role = ''user'', content = ''Hello''\<rparr>]"
  unfolding rev_upt_21 upt_11_31 by (simp add: str_nat_20)

text \<open>
  C3. The claim asks that, with a history of 30 turns and \<^verbatim>\<open>max_context_messages = 20\<close>, the
  prompt holds the 20 most recent turns, oldest first. The history that
  \<^verbatim>\<open>get_conversation_history\<close> returns is newest first, and the service keeps the tail of
  the list in list order: the one request sent holds the system prompt, then turns 20, 19,
  ..., 1 (the twenty oldest, newest first), then the new input. That is not the prompt of
  the claim, which would hold turns 11, 12, ..., 30.
\<close>

theorem prompt_of_stored_history:
  "map req_messages
     (sent (snd (get_ai_response always_answers ''Hello''
                   (Some (get_conversation_history thirty_turns (Some ''user_1'') None None 50 0))
                   ''default'' (7 / 10) None fresh_state))) =
   [\<lparr>role = ''system'', content = default_prompt\<rparr> #
    concat (map (\<lambda>i. [\<lparr>role = ''user'', content = ''question '' @ str_nat i\<rparr>,
                       \<lparr>role = ''assistant'', content = ''answer '' @ str_nat i\<rparr>])
              (rev [1..<21])) @
    [\<lparr>role = ''user'', content = ''Hello''\<rparr>]] \<and>
   map req_messages
     (sent (snd (get_ai_response always_answers ''Hello''
                   (Some (get_conversation_history thirty_turns (Some ''user_1'') None None 50 0))
                   ''default'' (7 / 10) None fresh_state))) \<noteq>
   [\<lparr>role = ''system'', content = default_prompt\<rparr> #
    concat (map (\<lambda>i. [\<lparr>role = ''user'', content = ''question '' @ str_nat i\<rparr>,
                       \<lparr>role = ''assistant'', content = ''answer '' @ str_nat i\<rparr>])
              [11..<31]) @
    [\<lparr>role = ''user'', content = ''Hello''\<rparr>]]"
proof -
  have sent_prompt: "map req_messages
     (sent (snd (get_ai_response always_answers ''Hello''
                   (Some (get_conversation_history thirty_turns (Some ''user_1'') None None 50 0))
                   ''default'' (7 / 10) None fresh_state))) =
   [\<lparr>role = ''system'', content = default_prompt\<rparr> #
    concat (map (\<lambda>i. [\<lparr>role = ''user'', content = ''question '' @ str_nat i\<rparr>,
                       \<lparr>role = ''assistant'', content = ''answer '' @ str_nat i\<rparr>])
              (rev [1..<21])) @
    [\<lparr>role = ''user'', content = ''Hello''\<rparr>]]"
    unfolding snd_get_ai_response thirty_turns_history
    by (simp add: get_ai_response_try_def fresh_state_def ZyeonAIService_def RateLimiter_def
        can_make_call_def Let_def strip_Hello record_call_def always_answers_def
        prepare_conversation_context_eq thirty_turns_window get_system_prompt_def comp_def
        turn_messages_turn_doc del: upt_Suc One_nat_def)
  show ?thesis
    unfolding sent_prompt using prompts_differ by simp
qed

subsection \<open>Sessions\<close>

lemma end_session_available:
  "available cm \<Longrightarrow>
   end_session now sid cm =
     cm\<lparr>sessions := update_one (\<lambda>d. session_id d = sid)
                       (\<lambda>d. d\<lparr>is_active := False, ended_at := Some (ms now), updated_at := ms now\<rparr>)
                       (sessions cm)\<rparr>"
  by (simp add: end_session_def end_session_try_def)

lemma end_session_unavailable: "\<not> available cm \<Longrightarrow> end_session now sid cm = cm"
  by (simp add: end_session_def end_session_try_def)

lemma update_one_first:
  "sid \<notin> session_id ` set pre \<Longrightarrow> session_id d = sid \<Longrightarrow>
   update_one (\<lambda>d. session_id d = sid) f (pre @ d # post) = pre @ f d # post"
  by (induction pre) auto

lemma update_one_none:
  "sid \<notin> session_id ` set ds \<Longrightarrow> update_one (\<lambda>d. session_id d = sid) f ds = ds"
  by (induction ds) auto

lemma update_one_twice:
  "update_one (\<lambda>d. session_id d = sid)
     (\<lambda>d. d\<lparr>is_active := False, ended_at := Some t', updated_at := t'\<rparr>)
     (update_one (\<lambda>d. session_id d = sid)
        (\<lambda>d. d\<lparr>is_active := False, ended_at := Some t, updated_at := t\<rparr>) ds) =
   update_one (\<lambda>d. session_id d = sid)
     (\<lambda>d. d\<lparr>is_active := False, ended_at := Some t', updated_at := t'\<rparr>) ds"
  by (induction ds) simp_all

lemma end_session_twice:
  "available cm \<Longrightarrow> end_session t' sid (end_session t sid cm) = end_session t' sid cm"
  by (simp add: end_session_available update_one_twice)

lemma update_one_ids:
  "map session_id (update_one P (\<lambda>d. d\<lparr>is_active := False, ended_at := Some t, updated_at := t\<rparr>) ds)
     = map session_id ds"
  by (induction ds) simp_all

lemma length_update_one: "length (update_one P f ds) = length ds"
  by (induction ds) simp_all

lemma update_one_stays_closed:
  "list_all2 stays_closed ds
     (update_one P (\<lambda>d. d\<lparr>is_active := False, ended_at := Some t, updated_at := t\<rparr>) ds)"
  by (induction ds) (simp_all add: stays_closed_def list_all2_refl)

lemma stays_closed_refl: "list_all2 stays_closed ds ds"
  by (simp add: list_all2_refl stays_closed_def)

lemma stays_closed_trans:
  "stays_closed a b \<Longrightarrow> stays_closed b c \<Longrightarrow> stays_closed a c"
  by (auto simp: stays_closed_def)

lemma model_step_stays_closed:
  "list_all2 stays_closed (sessions cm) (take (length (sessions cm)) (sessions (model_step cm ev)))"
proof (cases ev)
  case (EndSession now sid)
  then show ?thesis
    by (cases "available cm")
      (simp_all add: end_session_available end_session_unavailable update_one_stays_closed
        stays_closed_refl length_update_one)
qed (simp_all add: create_conversation_def create_session_def cleanup_old_conversations_def
    Let_def stays_closed_refl)

lemma model_step_sessions_length: "length (sessions cm) \<le> length (sessions (model_step cm ev))"
proof (cases ev)
  case (EndSession now sid)
  then show ?thesis
    by (cases "available cm")
      (simp_all add: end_session_available end_session_unavailable length_update_one)
qed (simp_all add: create_conversation_def create_session_def cleanup_old_conversations_def Let_def)

lemma model_run_stays_closed:
  "length (sessions cm) \<le> length (sessions (model_run cm evs)) \<and>
   list_all2 stays_closed (sessions cm) (take (length (sessions cm)) (sessions (model_run cm evs)))"
proof (induction evs arbitrary: cm)
  case Nil
  then show ?case by (simp add: stays_closed_refl)
next
  case (Cons ev evs)
  let ?mid = "model_step cm ev"
  let ?fin = "model_run ?mid evs"
  have le1: "length (sessions cm) \<le> length (sessions ?mid)"
    by (rule model_step_sessions_length)
  have le2: "length (sessions ?mid) \<le> length (sessions ?fin)"
    and all2: "list_all2 stays_closed (sessions ?mid) (take (length (sessions ?mid)) (sessions ?fin))"
    using Cons.IH [of ?mid] by simp_all
  have step: "list_all2 stays_closed (sessions cm) (take (length (sessions cm)) (sessions ?mid))"
    by (rule model_step_stays_closed)
  have "list_all2 stays_closed (take (length (sessions cm)) (sessions ?mid))
          (take (length (sessions cm)) (take (length (sessions ?mid)) (sessions ?fin)))"
    using all2 by (rule list_all2_takeI)
  then have "list_all2 stays_closed (take (length (sessions cm)) (sessions ?mid))
          (take (length (sessions cm)) (sessions ?fin))"
    using le1 by (simp add: min_def)
  with step have "list_all2 stays_closed (sessions cm) (take (length (sessions cm)) (sessions ?fin))"
    by (rule list_all2_trans [rotated]) (rule stays_closed_trans)
  with le1 le2 show ?case by simp
qed

lemma model_run_never_reopens:
  assumes "i < length (sessions cm)"
  shows "session_id (sessions (model_run cm evs) ! i) = session_id (sessions cm ! i)"
    and "is_active (sessions (model_run cm evs) ! i) \<Longrightarrow> is_active (sessions cm ! i)"
proof -
  have "list_all2 stays_closed (sessions cm)
          (take (length (sessions cm)) (sessions (model_run cm evs)))"
    using model_run_stays_closed [of cm evs] by simp
  then have "stays_closed (sessions cm ! i)
               (take (length (sessions cm)) (sessions (model_run cm evs)) ! i)"
    using assms by (rule list_all2_nthD)
  then have both: "stays_closed (sessions cm ! i) (sessions (model_run cm evs) ! i)"
    using assms by simp
  from both show "session_id (sessions (model_run cm evs) ! i) = session_id (sessions cm ! i)"
    by (simp add: stays_closed_def)
  from both show "is_active (sessions (model_run cm evs) ! i) \<Longrightarrow> is_active (sessions cm ! i)"
    by (auto simp: stays_closed_def)
qed

lemma list_all_update_one:
  "list_all Q ds \<Longrightarrow> (\<And>d. Q (f d)) \<Longrightarrow> list_all Q (update_one P f ds)"
  by (induction ds) simp_all

lemma update_one_closes:
  "distinct (map session_id ds) \<Longrightarrow>
   list_all (\<lambda>d. session_id d \<noteq> sid \<or> \<not> is_active d)
     (update_one (\<lambda>d. session_id d = sid)
        (\<lambda>d. d\<lparr>is_active := False, ended_at := Some t, updated_at := t\<rparr>) ds)"
proof (induction ds)
  case Nil
  then show ?case by simp
next
  case (Cons d ds)
  show ?case
  proof (cases "session_id d = sid")
    case True
    with Cons.prems have "sid \<notin> session_id ` set ds" by simp
    then have "\<forall>e \<in> set ds. session_id e \<noteq> sid" by (metis imageI)
    then show ?thesis using True by (simp add: list_all_iff)
  next
    case False
    then show ?thesis using Cons by simp
  qed
qed

lemma end_session_closes:
  assumes "available cm" "sessions_unique cm" "distinct (map session_id (sessions cm))"
    "sid \<in> set (map session_id (sessions cm))"
  shows "closed_for_good sid (end_session t sid cm)"
  using assms update_one_closes [of "sessions cm" sid "ms t"]
    update_one_ids [of "\<lambda>d. session_id d = sid" "ms t" "sessions cm"]
  by (simp add: closed_for_good_def end_session_available)

lemma model_step_closed_for_good:
  assumes "closed_for_good sid cm"
  shows "closed_for_good sid (model_step cm ev)"
proof (cases ev)
  case (CreateConversation now um ar uid cid csid mty md)
  then show ?thesis
    using assms by (simp add: closed_for_good_def create_conversation_def Let_def)
next
  case (CreateSession now uid sid' md)
  then show ?thesis
    using assms by (auto simp: closed_for_good_def create_session_def Let_def)
next
  case (EndSession now sid')
  show ?thesis
  proof (cases "available cm")
    case True
    have "list_all (\<lambda>d. session_id d \<noteq> sid \<or> \<not> is_active d)
            (update_one (\<lambda>d. session_id d = sid')
               (\<lambda>d. d\<lparr>is_active := False, ended_at := Some (ms now), updated_at := ms now\<rparr>)
               (sessions cm))"
      using assms by (intro list_all_update_one) (simp_all add: closed_for_good_def)
    then show ?thesis
      using assms True EndSession
        update_one_ids [of "\<lambda>d. session_id d = sid'" "ms now" "sessions cm"]
      by (simp add: closed_for_good_def end_session_available)
  next
    case False
    then show ?thesis
      using assms EndSession by (simp add: end_session_unavailable)
  qed
next
  case (Cleanup now days)
  then show ?thesis
    using assms by (simp add: closed_for_good_def cleanup_old_conversations_def)
next
  case (ServerUp b)
  then show ?thesis
    using assms by (simp add: closed_for_good_def)
next
  case (ServerOrder rank)
  then show ?thesis
    using assms by (simp add: closed_for_good_def)
next
  case (ServerBatch n)
  then show ?thesis
    using assms by (simp add: closed_for_good_def)
qed

lemma model_run_closed_for_good:
  "closed_for_good sid cm \<Longrightarrow> closed_for_good sid (model_run cm evs)"
  by (induction evs arbitrary: cm) (simp_all add: model_step_closed_for_good)

text \<open>
  The unique index keeps the session ids distinct: a store that starts with the index and
  distinct ids, as the constructor's empty store does, has both after every run.
\<close>

lemma model_step_index:
  assumes "sessions_unique cm" and "distinct (map session_id (sessions cm))"
  shows "sessions_unique (model_step cm ev) \<and>
         distinct (map session_id (sessions (model_step cm ev)))"
proof (cases ev)
  case (EndSession now sid)
  then show ?thesis
    using assms update_one_ids [of "\<lambda>d. session_id d = sid" "ms now" "sessions cm"]
    by (cases "available cm") (simp_all add: end_session_available end_session_unavailable)
qed (use assms in \<open>simp_all add: create_conversation_def create_session_def
    cleanup_old_conversations_def Let_def\<close>)

lemma model_run_index:
  "sessions_unique cm \<Longrightarrow> distinct (map session_id (sessions cm)) \<Longrightarrow>
   sessions_unique (model_run cm evs) \<and> distinct (map session_id (sessions (model_run cm evs)))"
  by (induction evs arbitrary: cm) (simp_all add: model_step_index)

lemma ConversationModel_index:
  "sessions_unique (model_run ConversationModel evs) \<and>
   distinct (map session_id (sessions (model_run ConversationModel evs)))"
  by (rule model_run_index) (simp_all add: ConversationModel_def)

lemma one_session_sessions:
  "sessions one_session =
     [\<lparr>session_id = ''session_1'', user_id = ''user_1'', metadata = [], created_at = 0,
       updated_at = 0, is_active = True, ended_at = None\<rparr>]"
  "available one_session" "sessions_unique one_session"
  by (simp_all add: one_session_def ConversationModel_def create_session_def Let_def ms_def)

text \<open>
  C7 (as amended). \<^verbatim>\<open>end_session\<close> never raises. When the store does not answer, or holds no
  session of that id, it changes nothing. When the store answers, the first session
  document of that id gets \<^verbatim>\<open>is_active\<close> false and \<^verbatim>\<open>ended_at\<close> and \<^verbatim>\<open>updated_at\<close> set to the time
  of the call (to the millisecond), whether or not the session was ended before, and
  nothing else changes: ending a session again is the same as ending it once at the later
  time. No run of operations removes a session document, changes its id or makes an
  inactive one active again. With the unique index in place (no two session documents
  of one id), once \<^verbatim>\<open>end_session\<close> has reached the store for an existing session, no document
  of that id is active after any further run of operations.
\<close>

theorem end_session_repeat_and_final:
  "(\<not> available cm \<longrightarrow> end_session t sid cm = cm) \<and>
   (sid \<notin> session_id ` set (sessions cm) \<longrightarrow> end_session t sid cm = cm) \<and>
   (available cm \<and> sessions cm = pre @ d # post \<and> session_id d = sid \<and>
    sid \<notin> session_id ` set pre \<longrightarrow>
      end_session t sid cm =
        cm\<lparr>sessions :=
             pre @ d\<lparr>is_active := False, ended_at := Some (ms t), updated_at := ms t\<rparr> # post\<rparr>) \<and>
   (available cm \<longrightarrow> end_session t' sid (end_session t sid cm) = end_session t' sid cm) \<and>
   length (sessions cm) \<le> length (sessions (model_run cm evs)) \<and>
   (\<forall>i < length (sessions cm).
      session_id (sessions (model_run cm evs) ! i) = session_id (sessions cm ! i) \<and>
      (is_active (sessions (model_run cm evs) ! i) \<longrightarrow> is_active (sessions cm ! i))) \<and>
   (available cm \<and> sessions_unique cm \<and> distinct (map session_id (sessions cm)) \<and>
    sid \<in> session_id ` set (sessions cm) \<longrightarrow>
      (\<forall>e \<in> set (sessions (model_run (end_session t sid cm) evs)).
         session_id e = sid \<longrightarrow> \<not> is_active e))"
proof (intro conjI impI allI ballI)
  show "end_session t sid cm = cm" if "\<not> available cm"
    using that by (rule end_session_unavailable)
  show "end_session t sid cm = cm" if "sid \<notin> session_id ` set (sessions cm)"
    using that
    by (cases "available cm") (simp_all add: end_session_available end_session_unavailable
        update_one_none)
  show "end_session t sid cm =
        cm\<lparr>sessions :=
             pre @ d\<lparr>is_active := False, ended_at := Some (ms t), updated_at := ms t\<rparr> # post\<rparr>"
    if "available cm \<and> sessions cm = pre @ d # post \<and> session_id d = sid \<and>
        sid \<notin> session_id ` set pre"
    using that by (simp add: end_session_available update_one_first)
  show "end_session t' sid (end_session t sid cm) = end_session t' sid cm" if "available cm"
    using that by (rule end_session_twice)
  show "length (sessions cm) \<le> length (sessions (model_run cm evs))"
    using model_run_stays_closed [of cm evs] by simp
  show "session_id (sessions (model_run cm evs) ! i) = session_id (sessions cm ! i)"
    if "i < length (sessions cm)" for i
    using that by (rule model_run_never_reopens)
  show "is_active (sessions cm ! i)"
    if "i < length (sessions cm)" "is_active (sessions (model_run cm evs) ! i)" for i
    using that by (rule model_run_never_reopens)
  show "\<not> is_active e"
    if pre: "available cm \<and> sessions_unique cm \<and> distinct (map session_id (sessions cm)) \<and>
        sid \<in> session_id ` set (sessions cm)"
      and e: "e \<in> set (sessions (model_run (end_session t sid cm) evs))" "session_id e = sid"
    for e
  proof -
    have "closed_for_good sid (end_session t sid cm)"
      using pre by (intro end_session_closes) simp_all
    then have "closed_for_good sid (model_run (end_session t sid cm) evs)"
      by (rule model_run_closed_for_good)
    then have "list_all (\<lambda>d. session_id d \<noteq> sid \<or> \<not> is_active d)
                 (sessions (model_run (end_session t sid cm) evs))"
      by (simp add: closed_for_good_def)
    with e show ?thesis by (auto simp: list_all_iff)
  qed
qed

theorem end_session_repeat_and_final_witness:
  "end_session 1 ''session_1'' (one_session\<lparr>available := False\<rparr>) = one_session\<lparr>available := False\<rparr> \<and>
   end_session 1 ''session_9'' one_session = one_session \<and>
   sessions (end_session (3 / 2 + 1 / 4096) ''session_1'' one_session) =
     [\<lparr>session_id = ''session_1'', user_id = ''user_1'', metadata = [], created_at = 0,
       updated_at = 3 / 2, is_active = False, ended_at = Some (3 / 2)\<rparr>] \<and>
   end_session 2 ''session_1'' (end_session 1 ''session_1'' one_session) =
     end_session 2 ''session_1'' one_session \<and>
   map is_active
     (sessions (model_run (end_session 1 ''session_1'' one_session)
                  [CreateSession 3 ''user_1'' ''session_1'' None,
                   EndSession 4 ''session_1''])) = [False]"
proof -
  let ?d = "\<lparr>session_id = ''session_1'', user_id = ''user_1'', metadata = [], created_at = 0,
       updated_at = 0, is_active = True, ended_at = None\<rparr>"
  have shape: "available one_session \<and> sessions one_session = [] @ ?d # [] \<and>
      session_id ?d = ''session_1'' \<and> ''session_1'' \<notin> session_id ` set []"
    by (simp add: one_session_sessions)
  have unknown: "''session_9'' \<notin> session_id ` set (sessions one_session)"
    by (simp add: one_session_sessions)
  have pre: "available one_session \<and> sessions_unique one_session \<and>
             distinct (map session_id (sessions one_session)) \<and>
             ''session_1'' \<in> session_id ` set (sessions one_session)"
    by (simp add: one_session_sessions)
  have "end_session (3 / 2 + 1 / 4096) ''session_1'' one_session =
      one_session\<lparr>sessions :=
        [] @ ?d\<lparr>is_active := False, ended_at := Some (ms (3 / 2 + 1 / 4096)),
                 updated_at := ms (3 / 2 + 1 / 4096)\<rparr> # []\<rparr>"
    using end_session_repeat_and_final
        [of one_session "3 / 2 + 1 / 4096" "''session_1''" "[]" ?d "[]" 2 "[]"] shape
    by blast
  then have ended: "sessions (end_session (3 / 2 + 1 / 4096) ''session_1'' one_session) =
     [\<lparr>session_id = ''session_1'', user_id = ''user_1'', metadata = [], created_at = 0,
       updated_at = 3 / 2, is_active = False, ended_at = Some (3 / 2)\<rparr>]"
    by (simp add: ms_def)
  have run: "map is_active (sessions (model_run (end_session 1 ''session_1'' one_session)
                  [CreateSession 3 ''user_1'' ''session_1'' None, EndSession 4 ''session_1''])) =
             [False]"
    by (simp add: end_session_def end_session_try_def create_session_def Let_def
        one_session_sessions)
  show ?thesis
    using end_session_repeat_and_final [of "one_session\<lparr>available := False\<rparr>" 1 "''session_1''"
        "[]" ?d "[]" 2 "[]"]
      end_session_repeat_and_final [of one_session 1 "''session_9''" "[]" ?d "[]" 2 "[]"]
      end_session_repeat_and_final [of one_session 1 "''session_1''" "[]" ?d "[]" 2
        "[CreateSession 3 ''user_1'' ''session_1'' None, EndSession 4 ''session_1'']"]
      unknown pre run ended
    by (simp add: ms_def)
qed

text \<open>
  C7 as stated fails in four ways. Ending an ended session is not a no-op: after a session
  is ended at time 1, ending it again at time 2 moves \<^verbatim>\<open>ended_at\<close> from 1 to 2. When the
  store does not answer, the session is still active after \<^verbatim>\<open>end_session\<close>. When
  \<^verbatim>\<open>end_session\<close> is called for a session id that is not in the store yet, a session
  created under that id afterwards is active. And without the unique index, a second
  document created under the id of an ended session is active.
\<close>

theorem end_session_counterexamples:
  "map ended_at (sessions (end_session 1 ''session_1'' one_session)) = [Some 1] \<and>
   map ended_at (sessions (end_session 2 ''session_1'' (end_session 1 ''session_1'' one_session))) =
     [Some 2] \<and>
   map is_active (sessions (end_session 1 ''session_1'' (one_session\<lparr>available := False\<rparr>))) =
     [True] \<and>
   map is_active
     (sessions (model_run ConversationModel
                  [EndSession 1 ''session_1'', CreateSession 2 ''user_1'' ''session_1'' None])) =
     [True] \<and>
   map is_active
     (sessions (model_run (ConversationModel\<lparr>sessions_unique := False\<rparr>)
                  [CreateSession 0 ''user_1'' ''session_1'' None, EndSession 1 ''session_1'',
                   CreateSession 2 ''user_1'' ''session_1'' None])) =
     [False, True]"
  by (simp add: end_session_def end_session_try_def create_session_def Let_def
      one_session_sessions ConversationModel_def ms_def)

subsection \<open>Listening\<close>

lemma voice_step_devices:
  "recognizer (voice_step vs ev) = recognizer vs" "microphone (voice_step vs ev) = microphone vs"
  by (cases ev; simp add: start_listening_def stop_listening_def Let_def)+

lemma voice_step_idle:
  assumes "(recognizer vs \<and> microphone vs) \<or> \<not> is_listening vs"
  shows "(recognizer (voice_step vs ev) \<and> microphone (voice_step vs ev)) \<or>
         \<not> is_listening (voice_step vs ev)"
  using assms by (cases ev) (auto simp: start_listening_def stop_listening_def Let_def)

lemma voice_run_idle:
  "(recognizer vs \<and> microphone vs) \<or> \<not> is_listening vs \<Longrightarrow>
   (recognizer (voice_run vs evs) \<and> microphone (voice_run vs evs)) \<or>
   \<not> is_listening (voice_run vs evs)"
proof (induction evs arbitrary: vs)
  case Nil
  then show ?case by simp
next
  case (Cons ev evs)
  from Cons.prems have "(recognizer (voice_step vs ev) \<and> microphone (voice_step vs ev)) \<or>
         \<not> is_listening (voice_step vs ev)"
    by (rule voice_step_idle)
  then show ?case
    using Cons.IH [of "voice_step vs ev"] by simp
qed

lemma voice_run_devices:
  "recognizer (voice_run vs evs) = recognizer vs" "microphone (voice_run vs evs) = microphone vs"
  by (induction evs arbitrary: vs) (simp_all add: voice_step_devices)

text \<open>
  C9 (as amended). Without a recognizer or a microphone \<^verbatim>\<open>start_listening()\<close> returns false
  and changes nothing; a service built without a capture device is not listening after any
  run, so it is still idle then. \<^verbatim>\<open>stop_listening()\<close> always leaves \<^verbatim>\<open>is_listening\<close> false;
  it returns true unless the \<^verbatim>\<open>on_listening_stopped\<close> callback raises, and false when it does.
\<close>

theorem listening_without_device:
  "(\<not> recognizer vs \<or> \<not> microphone vs \<longrightarrow> start_listening thread_starts vs = (False, vs)) \<and>
   (\<not> capture_ok \<longrightarrow>
      start_listening thread_starts (voice_run (VoiceService tts_ok capture_ok) evs) =
        (False, voice_run (VoiceService tts_ok capture_ok) evs) \<and>
      \<not> is_listening (voice_run (VoiceService tts_ok capture_ok) evs)) \<and>
   \<not> is_listening (snd (stop_listening exits vs)) \<and>
   fst (stop_listening exits vs) = (\<not> raises (on_listening_stopped vs))"
proof (intro conjI impI)
  show "start_listening thread_starts vs = (False, vs)" if "\<not> recognizer vs \<or> \<not> microphone vs"
    using that by (auto simp: start_listening_def)
  show "start_listening thread_starts (voice_run (VoiceService tts_ok capture_ok) evs) =
        (False, voice_run (VoiceService tts_ok capture_ok) evs)" if "\<not> capture_ok"
    using that by (simp add: start_listening_def voice_run_devices VoiceService_def)
  show "\<not> is_listening (voice_run (VoiceService tts_ok capture_ok) evs)" if "\<not> capture_ok"
    using that voice_run_idle [of "VoiceService tts_ok capture_ok" evs]
    by (simp add: voice_run_devices VoiceService_def)
  show "\<not> is_listening (snd (stop_listening exits vs))"
    by (simp add: stop_listening_def Let_def)
  show "fst (stop_listening exits vs) = (\<not> raises (on_listening_stopped vs))"
    by (simp add: stop_listening_def Let_def)
qed

theorem listening_without_device_witness:
  "start_listening True (voice_run (VoiceService True False) [StopListening True, StartListening True]) =
     (False, voice_run (VoiceService True False) [StopListening True, StartListening True]) \<and>
   is_listening (voice_run (VoiceService True False) [StopListening True, StartListening True]) = False \<and>
   stop_listening True (VoiceService True False) = (True, VoiceService True False)"
  using listening_without_device [of "VoiceService True False" True False True
      "[StopListening True, StartListening True]" True]
  by (simp add: VoiceService_def stop_listening_def start_listening_def raises_def Let_def)

text \<open>
  C9 as stated fails: \<^verbatim>\<open>stop_listening()\<close> does not always return true. On a service that
  never listened and whose stop callback raises, it returns false.
\<close>

theorem stop_listening_returns_false:
  "fst (stop_listening True silent_service) = False \<and> is_listening silent_service = False"
  by (simp add: silent_service_def VoiceService_def stop_listening_def raises_def Let_def)

end
